theory Spec2Isabelle
  imports Main "HOL-Library.Word"
begin

section \<open>The store file: an SQLite database\<close>

text \<open>
  The extension keeps its data in one SQLite file. SQLite is a library the sources call;
  it is modelled here for exactly the statements the sources send to it. A column
  holds a dynamically typed value, a table is the list of its rows in rowid order, and a
  table that has not been created is \<open>None\<close>. Engine failures that do not follow from the
  statement and the contents of the file (I/O errors, a locked file) are outside the model.
\<close>

type_synonym int64 = "64 word"
type_synonym int32 = "32 word"

datatype sqlite_value = NULL | INTEGER int64 | TEXT string | BLOB string

type_synonym row = "sqlite_value list"
type_synonym table = "row list"

record database =
  files :: "table option"
  extended_attributes :: "table option"
  entries :: "table option"
  names :: bool
  listing :: bool

text \<open>
  \<open>names\<close> and \<open>listing\<close> say whether the two indexes on \<open>entries\<close> exist. The columns of
  \<open>entries\<close> are, in the order of src/pg.c's CREATE TABLE: inode, name, parent_inode,
  ctime, mtime, nlink, size, is_dir; those of \<open>files\<close>: inode, mountpoint, rel_path,
  header, payload_size, prepend, append.
\<close>

definition inode :: "row \<Rightarrow> sqlite_value" where
  "inode r = r ! 0"

definition name :: "row \<Rightarrow> sqlite_value" where
  "name r = r ! 1"

definition parent_inode :: "row \<Rightarrow> sqlite_value" where
  "parent_inode r = r ! 2"

definition empty_database :: database where
  "empty_database =
     \<lparr>files = None, extended_attributes = None, entries = None, names = False, listing = False\<rparr>"

text \<open>The file at the path an operation is given: absent, or holding a database.\<close>

type_synonym store_file = "database option"

subsection \<open>Result codes\<close>

definition SQLITE_OK :: int where "SQLITE_OK = 0"
definition SQLITE_ERROR :: int where "SQLITE_ERROR = 1"
definition SQLITE_CANTOPEN :: int where "SQLITE_CANTOPEN = 14"
definition SQLITE_CONSTRAINT :: int where "SQLITE_CONSTRAINT = 19"
definition SQLITE_MISUSE :: int where "SQLITE_MISUSE = 21"
definition SQLITE_RANGE :: int where "SQLITE_RANGE = 25"
definition SQLITE_ROW :: int where "SQLITE_ROW = 100"
definition SQLITE_DONE :: int where "SQLITE_DONE = 101"

subsection \<open>Connections and transactions\<close>

text \<open>
  An open handle: \<open>disk\<close> is what the file holds, \<open>txn\<close> the uncommitted state of the open
  transaction, if there is one. Outside a transaction every statement commits by itself.
\<close>

record sqlite3 =
  disk :: database
  txn :: "database option"

datatype open_flags = SQLITE_OPEN_READWRITE | SQLITE_OPEN_READWRITE_CREATE

definition sqlite3_open_v2 :: "store_file \<Rightarrow> open_flags \<Rightarrow> int + sqlite3" where
  "sqlite3_open_v2 file flags =
     (case file of
        Some d \<Rightarrow> Inr \<lparr>disk = d, txn = None\<rparr>
      | None \<Rightarrow>
          (if flags = SQLITE_OPEN_READWRITE_CREATE
           then Inr \<lparr>disk = empty_database, txn = None\<rparr>
           else Inl SQLITE_CANTOPEN))"

text \<open>\<open>sqlite3_open\<close> is \<open>sqlite3_open_v2\<close> with SQLITE_OPEN_READWRITE | SQLITE_OPEN_CREATE,
  as the comment beside each call in the sources says.\<close>

definition sqlite3_open :: "store_file \<Rightarrow> int + sqlite3" where
  "sqlite3_open file = sqlite3_open_v2 file SQLITE_OPEN_READWRITE_CREATE"

text \<open>Closing a handle discards an open transaction; the file keeps what was committed.\<close>

definition sqlite3_close :: "sqlite3 \<Rightarrow> store_file" where
  "sqlite3_close db = Some (disk db)"

definition current :: "sqlite3 \<Rightarrow> database" where
  "current db = (case txn db of None \<Rightarrow> disk db | Some w \<Rightarrow> w)"

definition store :: "sqlite3 \<Rightarrow> database \<Rightarrow> sqlite3" where
  "store db d = (case txn db of None \<Rightarrow> db\<lparr>disk := d\<rparr> | Some w \<Rightarrow> db\<lparr>txn := Some d\<rparr>)"

subsection \<open>Statements run with \<open>sqlite3_exec\<close>\<close>

datatype sql =
    BEGIN_TRANSACTION
  | COMMIT
  | ROLLBACK
  | CREATE_TABLE_IF_NOT_EXISTS_files
  | CREATE_TABLE_IF_NOT_EXISTS_extended_attributes
  | CREATE_TABLE_IF_NOT_EXISTS_entries
  | CREATE_UNIQUE_INDEX_IF_NOT_EXISTS_names
  | CREATE_INDEX_IF_NOT_EXISTS_listing
  | INSERT_root_ON_CONFLICT_DO_NOTHING
  | DELETE_FROM_entries_WHERE_inode_gt_1
  | DELETE_FROM_files
  | DELETE_FROM_extended_attributes

text \<open>The root row of \<open>INSERT INTO entries(inode, name, parent_inode) VALUES (1, '/', 1)\<close>,
  the other columns taking the defaults of the CREATE TABLE.\<close>

definition root_row :: row where
  "root_row = [INTEGER 1, TEXT ''/'', INTEGER 1, INTEGER 0, INTEGER 0, INTEGER 1, INTEGER 0, INTEGER 1]"

text \<open>\<open>inode > 1\<close> as SQLite compares: integers by signed value, NULL never greater, text and
  blobs above every integer.\<close>

fun gt_1 :: "sqlite_value \<Rightarrow> bool" where
  "gt_1 NULL = False"
| "gt_1 (INTEGER w) = (1 <s w)"
| "gt_1 (TEXT s) = True"
| "gt_1 (BLOB s) = True"

fun sqlite3_exec :: "sqlite3 \<Rightarrow> sql \<Rightarrow> int \<times> sqlite3" where
  "sqlite3_exec db BEGIN_TRANSACTION =
     (case txn db of
        None \<Rightarrow> (SQLITE_OK, db\<lparr>txn := Some (disk db)\<rparr>)
      | Some w \<Rightarrow> (SQLITE_ERROR, db))"
| "sqlite3_exec db COMMIT =
     (case txn db of
        None \<Rightarrow> (SQLITE_ERROR, db)
      | Some w \<Rightarrow> (SQLITE_OK, \<lparr>disk = w, txn = None\<rparr>))"
| "sqlite3_exec db ROLLBACK =
     (case txn db of
        None \<Rightarrow> (SQLITE_ERROR, db)
      | Some w \<Rightarrow> (SQLITE_OK, db\<lparr>txn := None\<rparr>))"
| "sqlite3_exec db CREATE_TABLE_IF_NOT_EXISTS_files =
     (case files (current db) of
        None \<Rightarrow> (SQLITE_OK, store db ((current db)\<lparr>files := Some []\<rparr>))
      | Some t \<Rightarrow> (SQLITE_OK, db))"
| "sqlite3_exec db CREATE_TABLE_IF_NOT_EXISTS_extended_attributes =
     (case extended_attributes (current db) of
        None \<Rightarrow> (SQLITE_OK, store db ((current db)\<lparr>extended_attributes := Some []\<rparr>))
      | Some t \<Rightarrow> (SQLITE_OK, db))"
| "sqlite3_exec db CREATE_TABLE_IF_NOT_EXISTS_entries =
     (case entries (current db) of
        None \<Rightarrow> (SQLITE_OK, store db ((current db)\<lparr>entries := Some []\<rparr>))
      | Some t \<Rightarrow> (SQLITE_OK, db))"
| "sqlite3_exec db CREATE_UNIQUE_INDEX_IF_NOT_EXISTS_names =
     (if names (current db) then (SQLITE_OK, db)
      else case entries (current db) of
        None \<Rightarrow> (SQLITE_ERROR, db)
      | Some t \<Rightarrow>
          (if distinct (map (\<lambda>r. (parent_inode r, name r)) t)
           then (SQLITE_OK, store db ((current db)\<lparr>names := True\<rparr>))
           else (SQLITE_CONSTRAINT, db)))"
| "sqlite3_exec db CREATE_INDEX_IF_NOT_EXISTS_listing =
     (if listing (current db) then (SQLITE_OK, db)
      else case entries (current db) of
        None \<Rightarrow> (SQLITE_ERROR, db)
      | Some t \<Rightarrow> (SQLITE_OK, store db ((current db)\<lparr>listing := True\<rparr>)))"
| "sqlite3_exec db INSERT_root_ON_CONFLICT_DO_NOTHING =
     (case entries (current db) of
        None \<Rightarrow> (SQLITE_ERROR, db)
      | Some t \<Rightarrow>
          (if \<exists>r \<in> set t. inode r = INTEGER 1 \<or>
                (names (current db) \<and> parent_inode r = INTEGER 1 \<and> name r = TEXT ''/'')
           then (SQLITE_OK, db)
           else (SQLITE_OK, store db ((current db)\<lparr>entries := Some (t @ [root_row])\<rparr>))))"
| "sqlite3_exec db DELETE_FROM_entries_WHERE_inode_gt_1 =
     (case entries (current db) of
        None \<Rightarrow> (SQLITE_ERROR, db)
      | Some t \<Rightarrow>
          (SQLITE_OK, store db ((current db)\<lparr>entries := Some (filter (\<lambda>r. \<not> gt_1 (inode r)) t)\<rparr>)))"
| "sqlite3_exec db DELETE_FROM_files =
     (case files (current db) of
        None \<Rightarrow> (SQLITE_ERROR, db)
      | Some t \<Rightarrow> (SQLITE_OK, store db ((current db)\<lparr>files := Some []\<rparr>)))"
| "sqlite3_exec db DELETE_FROM_extended_attributes =
     (case extended_attributes (current db) of
        None \<Rightarrow> (SQLITE_ERROR, db)
      | Some t \<Rightarrow> (SQLITE_OK, store db ((current db)\<lparr>extended_attributes := Some []\<rparr>)))"

subsection \<open>Prepared statements\<close>

datatype stmt_sql =
    INSERT_INTO_files
  | INSERT_INTO_entries
  | DELETE_FROM_files_WHERE_inode
  | DELETE_FROM_entries_WHERE_inode_OR_parent_inode
  | INSERT_INTO_entries_decrypted_size

text \<open>A prepared statement: its text and the values bound to its parameters \<open>?1\<close>, \<open>?2\<close>, ...
  (NULL until bound). A statement handle that was never prepared is \<open>None\<close>.\<close>

record sqlite3_stmt =
  sql_text :: stmt_sql
  bound :: "sqlite_value list"

fun parameter_count :: "stmt_sql \<Rightarrow> nat" where
  "parameter_count INSERT_INTO_files = 7"
| "parameter_count INSERT_INTO_entries = 8"
| "parameter_count DELETE_FROM_files_WHERE_inode = 1"
| "parameter_count DELETE_FROM_entries_WHERE_inode_OR_parent_inode = 1"
| "parameter_count INSERT_INTO_entries_decrypted_size = 9"

fun table_of :: "stmt_sql \<Rightarrow> database \<Rightarrow> table option" where
  "table_of INSERT_INTO_files d = files d"
| "table_of INSERT_INTO_entries d = entries d"
| "table_of DELETE_FROM_files_WHERE_inode d = files d"
| "table_of DELETE_FROM_entries_WHERE_inode_OR_parent_inode d = entries d"
| "table_of INSERT_INTO_entries_decrypted_size d = entries d"

text \<open>Preparing fails when the table the statement names does not exist.\<close>

definition sqlite3_prepare_v2 :: "sqlite3 \<Rightarrow> stmt_sql \<Rightarrow> int \<times> sqlite3_stmt option" where
  "sqlite3_prepare_v2 db s =
     (case table_of s (current db) of
        None \<Rightarrow> (SQLITE_ERROR, None)
      | Some t \<Rightarrow> (SQLITE_OK, Some \<lparr>sql_text = s, bound = replicate (parameter_count s) NULL\<rparr>))"

definition sqlite3_bind :: "sqlite3_stmt option \<Rightarrow> nat \<Rightarrow> sqlite_value \<Rightarrow> int \<times> sqlite3_stmt option" where
  "sqlite3_bind stmt i v =
     (case stmt of
        None \<Rightarrow> (SQLITE_MISUSE, None)
      | Some s \<Rightarrow>
          (if i < 1 \<or> length (bound s) < i then (SQLITE_RANGE, stmt)
           else (SQLITE_OK, Some (s\<lparr>bound := (bound s)[i - 1 := v]\<rparr>))))"

text \<open>What each binding function stores. \<open>sqlite3_bind_int\<close> takes a C \<open>int\<close> and SQLite
  keeps its value as a 64-bit integer.\<close>

definition sqlite3_bind_int64 :: "int64 \<Rightarrow> sqlite_value" where
  "sqlite3_bind_int64 w = INTEGER w"

definition sqlite3_bind_int :: "int32 \<Rightarrow> sqlite_value" where
  "sqlite3_bind_int w = INTEGER (scast w)"

definition sqlite3_bind_text :: "string \<Rightarrow> sqlite_value" where
  "sqlite3_bind_text s = TEXT s"

definition sqlite3_bind_blob :: "string \<Rightarrow> sqlite_value" where
  "sqlite3_bind_blob s = BLOB s"

definition sqlite3_bind_null :: sqlite_value where
  "sqlite3_bind_null = NULL"

text \<open>The sources bind with \<open>rc = (bind(1, ..) || bind(2, ..) || ...)\<close>: the bindings run in
  order, stop at the first one that fails, and \<open>rc\<close> is 1 then and 0 otherwise.\<close>

fun bind_chain :: "sqlite3_stmt option \<Rightarrow> (nat \<times> sqlite_value) list \<Rightarrow> int \<times> sqlite3_stmt option" where
  "bind_chain stmt [] = (0, stmt)"
| "bind_chain stmt ((i, v) # bs) =
     (case sqlite3_bind stmt i v of
        (rc, stmt') \<Rightarrow> if rc \<noteq> SQLITE_OK then (1, stmt') else bind_chain stmt' bs)"

text \<open>\<open>sqlite3_reset\<close> makes the statement ready to run again and keeps its bindings.\<close>

definition sqlite3_reset :: "sqlite3_stmt option \<Rightarrow> sqlite3_stmt option" where
  "sqlite3_reset stmt = stmt"

text \<open>SQL equality in a WHERE clause: a comparison with NULL is never true.\<close>

definition sql_eq :: "sqlite_value \<Rightarrow> sqlite_value \<Rightarrow> bool" where
  "sql_eq a b = (a \<noteq> NULL \<and> b \<noteq> NULL \<and> a = b)"

text \<open>
  \<open>INSERT INTO entries(...) VALUES(...) ON CONFLICT(inode) DO UPDATE SET\<close> every other
  column. \<open>not_null\<close> says of each column, in order, whether it is declared NOT NULL,
  \<open>uniq\<close> whether the unique index \<open>names\<close> on (parent_inode, name) exists. A row that
  breaks NOT NULL, or that would share (parent_inode, name) with a row of another inode,
  fails with SQLITE_CONSTRAINT and changes nothing; a row whose inode is present replaces
  that row in place; any other row is appended.
\<close>

definition upsert_entries :: "bool list \<Rightarrow> bool \<Rightarrow> row \<Rightarrow> table \<Rightarrow> int + table" where
  "upsert_entries not_null uniq new t =
     (if \<exists>(v, nn) \<in> set (zip new not_null). nn \<and> v = NULL then Inl SQLITE_CONSTRAINT
      else if uniq \<and> (\<exists>r \<in> set t. inode r \<noteq> inode new \<and>
                 parent_inode r = parent_inode new \<and> name r = name new)
      then Inl SQLITE_CONSTRAINT
      else if \<exists>r \<in> set t. inode r = inode new
      then Inr (map (\<lambda>r. if inode r = inode new then new else r) t)
      else Inr (t @ [new]))"

text \<open>The NOT NULL declarations of \<open>entries\<close> in src/pg.c (every column) and in
  src/pg_sqlite_fs.c (every column but decrypted_size, the eighth).\<close>

definition entries_not_null :: "bool list" where
  "entries_not_null = [True, True, True, True, True, True, True, True]"

definition entries_decrypted_size_not_null :: "bool list" where
  "entries_decrypted_size_not_null = [True, True, True, True, True, True, True, False, True]"

text \<open>
  \<open>INSERT INTO files(...) VALUES(...) ON CONFLICT(inode) DO UPDATE SET\<close> every other
  column. Only payload_size (position 4) is NOT NULL.
\<close>

definition upsert_files :: "row \<Rightarrow> table \<Rightarrow> int + table" where
  "upsert_files new t =
     (if new ! 4 = NULL then Inl SQLITE_CONSTRAINT
      else if \<exists>r \<in> set t. sql_eq (inode r) (inode new)
      then Inr (map (\<lambda>r. if sql_eq (inode r) (inode new) then new else r) t)
      else Inr (t @ [new]))"

text \<open>The row of the older file's INSERT in the column order of its CREATE TABLE (inode,
  name, parent_inode, ctime, mtime, nlink, size, decrypted_size, is_dir): the statement
  lists decrypted_size as its fourth parameter.\<close>

definition decrypted_size_row :: "sqlite_value list \<Rightarrow> row" where
  "decrypted_size_row ps = [ps ! 0, ps ! 1, ps ! 2, ps ! 4, ps ! 5, ps ! 6, ps ! 7, ps ! 3, ps ! 8]"

definition sqlite3_step :: "sqlite3 \<Rightarrow> sqlite3_stmt option \<Rightarrow> int \<times> sqlite3" where
  "sqlite3_step db stmt =
     (case stmt of
        None \<Rightarrow> (SQLITE_MISUSE, db)
      | Some s \<Rightarrow>
          (case table_of (sql_text s) (current db) of
             None \<Rightarrow> (SQLITE_ERROR, db)
           | Some t \<Rightarrow>
               (case sql_text s of
                  INSERT_INTO_files \<Rightarrow>
                    (case upsert_files (bound s) t of
                       Inl rc \<Rightarrow> (rc, db)
                     | Inr t' \<Rightarrow> (SQLITE_DONE, store db ((current db)\<lparr>files := Some t'\<rparr>)))
                | INSERT_INTO_entries \<Rightarrow>
                    (case upsert_entries entries_not_null (names (current db)) (bound s) t of
                       Inl rc \<Rightarrow> (rc, db)
                     | Inr t' \<Rightarrow> (SQLITE_DONE, store db ((current db)\<lparr>entries := Some t'\<rparr>)))
                | DELETE_FROM_files_WHERE_inode \<Rightarrow>
                    (SQLITE_DONE, store db ((current db)
                       \<lparr>files := Some (filter (\<lambda>r. \<not> sql_eq (inode r) (bound s ! 0)) t)\<rparr>))
                | DELETE_FROM_entries_WHERE_inode_OR_parent_inode \<Rightarrow>
                    (SQLITE_DONE, store db ((current db)
                       \<lparr>entries := Some (filter (\<lambda>r. \<not> (sql_eq (inode r) (bound s ! 0) \<or>
                                                      sql_eq (parent_inode r) (bound s ! 0))) t)\<rparr>))
                | INSERT_INTO_entries_decrypted_size \<Rightarrow>
                    (case upsert_entries entries_decrypted_size_not_null (names (current db)) (decrypted_size_row (bound s)) t of
                       Inl rc \<Rightarrow> (rc, db)
                     | Inr t' \<Rightarrow> (SQLITE_DONE, store db ((current db)\<lparr>entries := Some t'\<rparr>))))))"

section \<open>The PostgreSQL side\<close>

text \<open>
  A \<open>Datum\<close> is a machine word for the types passed by value (int8, int4, bool) and a
  reference to the bytes of a varlena for text and bytea. The conversion macros are defined
  on the datums of their own kind only, which is what PostgreSQL hands to a function whose
  arguments and columns have been type-checked. The datum of an SQL NULL is not given to
  them here: the operations on one row test \<open>PG_ARGISNULL\<close> before they convert, and what
  the bulk loaders do with a NULL is said where they read a column.
\<close>

datatype Datum = ByVal int64 | ByRef string

fun DatumGetInt64 :: "Datum \<Rightarrow> int64" where
  "DatumGetInt64 (ByVal w) = w"

fun DatumGetUInt64 :: "Datum \<Rightarrow> int64" where
  "DatumGetUInt64 (ByVal w) = w"

fun DatumGetUInt32 :: "Datum \<Rightarrow> int32" where
  "DatumGetUInt32 (ByVal w) = ucast w"

fun DatumGetBool :: "Datum \<Rightarrow> bool" where
  "DatumGetBool (ByVal w) = (w \<noteq> 0)"

fun DatumGetTextPP :: "Datum \<Rightarrow> string" where
  "DatumGetTextPP (ByRef s) = s"

fun DatumGetByteaP :: "Datum \<Rightarrow> string" where
  "DatumGetByteaP (ByRef s) = s"

subsection \<open>Function arguments\<close>

record NullableDatum =
  arg_value :: Datum
  arg_isnull :: bool

type_synonym FunctionCallInfo = "NullableDatum list"

definition PG_NARGS :: "FunctionCallInfo \<Rightarrow> nat" where
  "PG_NARGS fcinfo = length fcinfo"

definition PG_ARGISNULL :: "FunctionCallInfo \<Rightarrow> nat \<Rightarrow> bool" where
  "PG_ARGISNULL fcinfo n = arg_isnull (fcinfo ! n)"

definition PG_GETARG_INT64 :: "FunctionCallInfo \<Rightarrow> nat \<Rightarrow> int64" where
  "PG_GETARG_INT64 fcinfo n = DatumGetInt64 (arg_value (fcinfo ! n))"

definition PG_GETARG_BOOL :: "FunctionCallInfo \<Rightarrow> nat \<Rightarrow> bool" where
  "PG_GETARG_BOOL fcinfo n = DatumGetBool (arg_value (fcinfo ! n))"

definition PG_GETARG_TEXT_PP :: "FunctionCallInfo \<Rightarrow> nat \<Rightarrow> string" where
  "PG_GETARG_TEXT_PP fcinfo n = DatumGetTextPP (arg_value (fcinfo ! n))"

definition PG_GETARG_BYTEA_PP :: "FunctionCallInfo \<Rightarrow> nat \<Rightarrow> string" where
  "PG_GETARG_BYTEA_PP fcinfo n = DatumGetByteaP (arg_value (fcinfo ! n))"

text \<open>How a call ends: it returns its boolean, or \<open>elog(ERROR, ...)\<close> (the macro \<open>E\<close>) leaves
  the function without a result, or the backend process is killed by the signal of a read
  at address 0.\<close>

datatype pg_result = PG_RETURN_BOOL bool | ERROR | SIGSEGV

section \<open>The operations of src/pg.c\<close>

text \<open>
  Every operation takes its arguments and the file at the path of its first argument, and
  gives its result and the file afterwards. The first argument has passed
  \<open>convert_and_check_path\<close>, the confinement of paths, which is not part of this model.
\<close>

text \<open>\<open>pg_sqlite_fs_create\<close> runs its statements in order; the first one that fails sets
  \<open>rc = 2\<close> and jumps to \<open>bailout\<close>, and what the earlier ones did stays.\<close>

fun exec_in_order :: "sqlite3 \<Rightarrow> sql list \<Rightarrow> int \<times> sqlite3" where
  "exec_in_order db [] = (0, db)"
| "exec_in_order db (q # qs) =
     (case sqlite3_exec db q of
        (rc, db') \<Rightarrow> if rc \<noteq> SQLITE_OK then (2, db') else exec_in_order db' qs)"

definition create_statements :: "sql list" where
  "create_statements =
     [CREATE_TABLE_IF_NOT_EXISTS_files,
      CREATE_TABLE_IF_NOT_EXISTS_extended_attributes,
      CREATE_TABLE_IF_NOT_EXISTS_entries,
      CREATE_UNIQUE_INDEX_IF_NOT_EXISTS_names,
      CREATE_INDEX_IF_NOT_EXISTS_listing,
      INSERT_root_ON_CONFLICT_DO_NOTHING]"

definition pg_sqlite_fs_create :: "FunctionCallInfo \<Rightarrow> store_file \<Rightarrow> pg_result \<times> store_file" where
  "pg_sqlite_fs_create fcinfo file =
     (if PG_NARGS fcinfo \<noteq> 1 then (ERROR, file)
      else if PG_ARGISNULL fcinfo 0 then (ERROR, file)
      else case sqlite3_open file of
        Inl rc \<Rightarrow> (PG_RETURN_BOOL False, file)
      | Inr db \<Rightarrow>
          (case exec_in_order db create_statements of
             (rc, db') \<Rightarrow> (PG_RETURN_BOOL (rc = 0), sqlite3_close db')))"

text \<open>\<open>unlink\<close> removes the file and fails when there is none.\<close>

definition pg_sqlite_fs_remove :: "FunctionCallInfo \<Rightarrow> store_file \<Rightarrow> pg_result \<times> store_file" where
  "pg_sqlite_fs_remove fcinfo file =
     (if PG_NARGS fcinfo \<noteq> 1 then (ERROR, file)
      else if PG_ARGISNULL fcinfo 0 then (ERROR, file)
      else case file of
        None \<Rightarrow> (PG_RETURN_BOOL False, None)
      | Some d \<Rightarrow> (PG_RETURN_BOOL True, None))"

definition pg_sqlite_fs_insert_file :: "FunctionCallInfo \<Rightarrow> store_file \<Rightarrow> pg_result \<times> store_file" where
  "pg_sqlite_fs_insert_file fcinfo file =
     (if PG_NARGS fcinfo \<noteq> 8 then (ERROR, file)
      else if PG_ARGISNULL fcinfo 0 \<or> PG_ARGISNULL fcinfo 1 then (ERROR, file)
      else case sqlite3_open file of
        Inl rc \<Rightarrow> (PG_RETURN_BOOL False, file)
      | Inr db \<Rightarrow>
          (case sqlite3_prepare_v2 db INSERT_INTO_files of
             (rc, stmt) \<Rightarrow>
               if rc \<noteq> SQLITE_OK then (PG_RETURN_BOOL False, sqlite3_close db)
               else case bind_chain stmt
                      [(1, sqlite3_bind_int64 (PG_GETARG_INT64 fcinfo 1)),
                       (2, if PG_ARGISNULL fcinfo 2 then sqlite3_bind_null
                           else sqlite3_bind_text (PG_GETARG_TEXT_PP fcinfo 2)),
                       (3, if PG_ARGISNULL fcinfo 3 then sqlite3_bind_null
                           else sqlite3_bind_text (PG_GETARG_TEXT_PP fcinfo 3)),
                       (4, if PG_ARGISNULL fcinfo 4 then sqlite3_bind_null
                           else sqlite3_bind_blob (PG_GETARG_BYTEA_PP fcinfo 4)),
                       (5, sqlite3_bind_int64
                             (if PG_ARGISNULL fcinfo 5 then 0 else PG_GETARG_INT64 fcinfo 5)),
                       (6, if PG_ARGISNULL fcinfo 6 then sqlite3_bind_null
                           else sqlite3_bind_blob (PG_GETARG_BYTEA_PP fcinfo 6)),
                       (7, if PG_ARGISNULL fcinfo 7 then sqlite3_bind_null
                           else sqlite3_bind_blob (PG_GETARG_BYTEA_PP fcinfo 7))] of
                 (rc, stmt) \<Rightarrow>
                   if rc \<noteq> SQLITE_OK then (PG_RETURN_BOOL False, sqlite3_close db)
                   else case sqlite3_step db stmt of
                     (rc, db') \<Rightarrow>
                       if rc \<noteq> SQLITE_DONE then (PG_RETURN_BOOL False, sqlite3_close db')
                       else (PG_RETURN_BOOL True, sqlite3_close db')))"

definition pg_sqlite_fs_insert_entry :: "FunctionCallInfo \<Rightarrow> store_file \<Rightarrow> pg_result \<times> store_file" where
  "pg_sqlite_fs_insert_entry fcinfo file =
     (if PG_NARGS fcinfo < 4 then (ERROR, file)
      else if PG_ARGISNULL fcinfo 0 \<or> PG_ARGISNULL fcinfo 1 \<or> PG_ARGISNULL fcinfo 2 \<or>
              PG_ARGISNULL fcinfo 3 then (ERROR, file)
      else case sqlite3_open file of
        Inl rc \<Rightarrow> (PG_RETURN_BOOL False, file)
      | Inr db \<Rightarrow>
          (let inode = PG_GETARG_INT64 fcinfo 1;
               name = PG_GETARG_TEXT_PP fcinfo 2;
               parent_inode = PG_GETARG_INT64 fcinfo 3
           in case sqlite3_prepare_v2 db INSERT_INTO_entries of
             (rc, stmt) \<Rightarrow>
               if rc \<noteq> SQLITE_OK then (PG_RETURN_BOOL False, sqlite3_close db)
               else case bind_chain stmt
                      [(1, sqlite3_bind_int64 inode),
                       (2, sqlite3_bind_text name),
                       (3, sqlite3_bind_int64 parent_inode),
                       (4, sqlite3_bind_int64 (PG_GETARG_INT64 fcinfo 4)),
                       (5, sqlite3_bind_int64 (PG_GETARG_INT64 fcinfo 5)),
                       (6, sqlite3_bind_int64 (PG_GETARG_INT64 fcinfo 6)),
                       (7, sqlite3_bind_int64 (PG_GETARG_INT64 fcinfo 7)),
                       (8, sqlite3_bind_int (if PG_GETARG_BOOL fcinfo 8 then 1 else 0))] of
                 (rc, stmt) \<Rightarrow>
                   if rc \<noteq> SQLITE_OK then (PG_RETURN_BOOL False, sqlite3_close db)
                   else case sqlite3_step db stmt of
                     (rc, db') \<Rightarrow>
                       if rc \<noteq> SQLITE_DONE then (PG_RETURN_BOOL False, sqlite3_close db')
                       else (PG_RETURN_BOOL True, sqlite3_close db')))"

text \<open>\<open>pg_sqlite_fs_delete_file\<close> ignores the result of \<open>sqlite3_prepare_v2\<close>; binding to a
  statement that was not prepared fails. After the step, \<open>rc\<close> is set to 0 whatever the
  step returned.\<close>

definition pg_sqlite_fs_delete_file :: "FunctionCallInfo \<Rightarrow> store_file \<Rightarrow> pg_result \<times> store_file" where
  "pg_sqlite_fs_delete_file fcinfo file =
     (case sqlite3_open_v2 file SQLITE_OPEN_READWRITE of
        Inl rc \<Rightarrow> (ERROR, file)
      | Inr db \<Rightarrow>
          (case sqlite3_prepare_v2 db DELETE_FROM_files_WHERE_inode of
             (rc, stmt) \<Rightarrow>
               (case sqlite3_bind stmt 1 (sqlite3_bind_int64 (PG_GETARG_INT64 fcinfo 1)) of
                  (rc, stmt) \<Rightarrow>
                    if rc \<noteq> SQLITE_OK then (PG_RETURN_BOOL (rc = 0), sqlite3_close db)
                    else case sqlite3_step db stmt of
                      (rc, db') \<Rightarrow> (PG_RETURN_BOOL True, sqlite3_close db'))))"

text \<open>The loop of \<open>pg_sqlite_fs_delete_entry\<close> steps the statement until it is done or
  fails: \<open>while(1)\<close> with an exit on SQLITE_DONE and one on anything but SQLITE_ROW.\<close>

partial_function (option) step_until_done :: "sqlite3 \<Rightarrow> sqlite3_stmt option \<Rightarrow> (int \<times> sqlite3) option" where
  "step_until_done db stmt =
     (case sqlite3_step db stmt of
        (rc, db') \<Rightarrow>
          if rc = SQLITE_DONE then Some (0, db')
          else if rc \<noteq> SQLITE_ROW then Some (1, db')
          else step_until_done db' stmt)"

declare step_until_done.simps [code]

definition pg_sqlite_fs_delete_entry :: "FunctionCallInfo \<Rightarrow> store_file \<Rightarrow> (pg_result \<times> store_file) option" where
  "pg_sqlite_fs_delete_entry fcinfo file =
     (case sqlite3_open_v2 file SQLITE_OPEN_READWRITE of
        Inl rc \<Rightarrow> Some (ERROR, file)
      | Inr db \<Rightarrow>
          (case sqlite3_prepare_v2 db DELETE_FROM_entries_WHERE_inode_OR_parent_inode of
             (rc, stmt) \<Rightarrow>
               (case sqlite3_bind stmt 1 (sqlite3_bind_int64 (PG_GETARG_INT64 fcinfo 1)) of
                  (rc, stmt) \<Rightarrow>
                    if rc \<noteq> SQLITE_OK then Some (PG_RETURN_BOOL (rc = 0), sqlite3_close db)
                    else case step_until_done db stmt of
                      None \<Rightarrow> None
                    | Some (rc, db') \<Rightarrow> Some (PG_RETURN_BOOL (rc = 0), sqlite3_close db'))))"

definition pg_sqlite_fs_truncate_table :: "FunctionCallInfo \<Rightarrow> sql \<Rightarrow> store_file \<Rightarrow> pg_result \<times> store_file" where
  "pg_sqlite_fs_truncate_table fcinfo q file =
     (case sqlite3_open_v2 file SQLITE_OPEN_READWRITE of
        Inl rc \<Rightarrow> (ERROR, file)
      | Inr db \<Rightarrow>
          (case sqlite3_exec db q of
             (rc, db') \<Rightarrow> (PG_RETURN_BOOL (rc = SQLITE_OK), sqlite3_close db')))"

definition pg_sqlite_fs_truncate_entries :: "FunctionCallInfo \<Rightarrow> store_file \<Rightarrow> pg_result \<times> store_file" where
  "pg_sqlite_fs_truncate_entries fcinfo file =
     pg_sqlite_fs_truncate_table fcinfo DELETE_FROM_entries_WHERE_inode_gt_1 file"

definition pg_sqlite_fs_truncate_files :: "FunctionCallInfo \<Rightarrow> store_file \<Rightarrow> pg_result \<times> store_file" where
  "pg_sqlite_fs_truncate_files fcinfo file =
     pg_sqlite_fs_truncate_table fcinfo DELETE_FROM_files file"

definition pg_sqlite_fs_truncate_attributes :: "FunctionCallInfo \<Rightarrow> store_file \<Rightarrow> pg_result \<times> store_file" where
  "pg_sqlite_fs_truncate_attributes fcinfo file =
     pg_sqlite_fs_truncate_table fcinfo DELETE_FROM_extended_attributes file"

text \<open>\<open>pg_sqlite_fs_exec\<close> runs a statement of the caller's. What the statement does is the
  parameter \<open>run\<close>: any function from the open handle to a result code and the handle
  afterwards.\<close>

definition pg_sqlite_fs_exec :: "FunctionCallInfo \<Rightarrow> (sqlite3 \<Rightarrow> int \<times> sqlite3) \<Rightarrow> store_file \<Rightarrow> pg_result \<times> store_file" where
  "pg_sqlite_fs_exec fcinfo run file =
     (if PG_NARGS fcinfo \<noteq> 2 then (ERROR, file)
      else if PG_ARGISNULL fcinfo 0 \<or> PG_ARGISNULL fcinfo 1 then (ERROR, file)
      else case sqlite3_open file of
        Inl rc \<Rightarrow> (PG_RETURN_BOOL False, file)
      | Inr db \<Rightarrow>
          (case run db of
             (rc, db') \<Rightarrow> (PG_RETURN_BOOL (rc = SQLITE_OK), sqlite3_close db')))"

section \<open>The bulk loaders of src/pg.c\<close>

subsection \<open>The row source\<close>

text \<open>
  The loaders run the caller's query through SPI and read its result: a tuple descriptor
  and the tuples. \<open>natts\<close> is the number of columns; \<open>atttypid p\<close> is what
  \<open>TupleDescAttr(tupdesc, p)->atttypid\<close> reads, which for \<open>p\<close> below \<open>natts\<close> is the type
  of column \<open>p\<close> and otherwise whatever lies behind the descriptor's array (the macro
  checks no bound). A tuple gives each column its datum, or \<open>None\<close> for SQL NULL, and
  has \<open>natts\<close> columns.
\<close>

type_synonym Oid = nat

definition BOOLOID :: Oid where "BOOLOID = 16"
definition BYTEAOID :: Oid where "BYTEAOID = 17"
definition INT8OID :: Oid where "INT8OID = 20"
definition INT4OID :: Oid where "INT4OID = 23"
definition TEXTOID :: Oid where "TEXTOID = 25"

record TupleDesc =
  natts :: nat
  atttypid :: "nat \<Rightarrow> Oid"

type_synonym HeapTuple = "Datum option list"

record SPITupleTable =
  tupdesc :: TupleDesc
  vals :: "HeapTuple list"

text \<open>What the SPI calls of one run of a loader return.\<close>

record spi =
  SPI_connect :: int
  SPI_execute :: int
  SPI_tuptable :: SPITupleTable

definition SPI_OK_CONNECT :: int where "SPI_OK_CONNECT = 1"
definition SPI_OK_SELECT :: int where "SPI_OK_SELECT = 5"

text \<open>\<open>SPI_getbinval\<close> numbers the columns from 1 and reports a column that does not exist
  as NULL. For an SQL NULL it sets \<open>isnull\<close> and returns the datum 0, which is \<open>None\<close> here.\<close>

definition SPI_getbinval :: "HeapTuple \<Rightarrow> TupleDesc \<Rightarrow> nat \<Rightarrow> Datum option" where
  "SPI_getbinval tuple td fnumber =
     (if natts td < fnumber \<or> fnumber = 0 then None else tuple ! (fnumber - 1))"

text \<open>The macro \<open>SQLITE_FS_CHECK_TYPE(p, t, n)\<close> sets \<open>rc = 4\<close> and jumps to \<open>bailout_spi\<close>
  when the type at position \<open>p\<close> is not \<open>t\<close>; \<open>type_mismatch\<close> is its condition, for the
  checks of a loader in their order.\<close>

definition type_mismatch :: "TupleDesc \<Rightarrow> (nat \<times> Oid) list \<Rightarrow> bool" where
  "type_mismatch td checks = (\<exists>(p, t) \<in> set checks. atttypid td p \<noteq> t)"

subsection \<open>Reading a column\<close>

text \<open>
  Both loaders read a column with \<open>v = DatumGetX(SPI_getbinval(..., &isnull))\<close> and look at
  \<open>isnull\<close> afterwards. For the types passed by value (\<open>DatumGetUInt64\<close>, \<open>DatumGetUInt32\<close>,
  \<open>DatumGetBool\<close>) the macro only converts the word, so a NULL reaches the test of
  \<open>isnull\<close>. \<open>DatumGetTextPP\<close> and \<open>DatumGetByteaP\<close> detoast: they read the header of the
  varlena at the address the datum holds. The datum of a NULL is 0, so for a NULL in a
  text or bytea column the macro reads at address 0 and the backend process is killed
  before \<open>isnull\<close> is looked at. A pass of the loop body that ends so is \<open>None\<close>; one that
  reaches its end or a \<open>goto bailout_spi\<close> gives the value of \<open>rc\<close> with which it ends (0
  when the loop goes on to the next tuple), the handle and the statement.
\<close>

subsection \<open>\<open>pg_sqlite_fs_insert_files\<close>\<close>

text \<open>The columns are read in the order inode, mountpoint, rel_path, header, payload_size,
  prepend, append. inode and payload_size are converted by value: a null inode sets
  \<open>rc = 1\<close> and leaves the loop, a null payload_size becomes 0. The other five are
  detoasted. The tests of \<open>isnull\<close> that follow mountpoint and rel_path, and the three
  conditional bindings \<open>header_isnull ? sqlite3_bind_null : sqlite3_bind_blob\<close> (and the
  same for prepend and append), are reached only with a flag that is false, since a NULL
  in one of these columns has ended the process at its conversion.\<close>

definition insert_files_tuple :: "sqlite3 \<Rightarrow> sqlite3_stmt option \<Rightarrow> TupleDesc \<Rightarrow> HeapTuple \<Rightarrow> (int \<times> sqlite3 \<times> sqlite3_stmt option) option" where
  "insert_files_tuple db stmt td tuple =
     (case SPI_getbinval tuple td 1 of
        None \<Rightarrow> Some (1, db, stmt)
      | Some d1 \<Rightarrow>
     (case SPI_getbinval tuple td 2 of
        None \<Rightarrow> None
      | Some d2 \<Rightarrow>
     (case SPI_getbinval tuple td 3 of
        None \<Rightarrow> None
      | Some d3 \<Rightarrow>
     (case SPI_getbinval tuple td 4 of
        None \<Rightarrow> None
      | Some d4 \<Rightarrow>
     (let payload_size = (case SPI_getbinval tuple td 5 of
                            None \<Rightarrow> 0 | Some d5 \<Rightarrow> DatumGetUInt64 d5) in
     (case SPI_getbinval tuple td 6 of
        None \<Rightarrow> None
      | Some d6 \<Rightarrow>
     (case SPI_getbinval tuple td 7 of
        None \<Rightarrow> None
      | Some d7 \<Rightarrow>
          (let inode = DatumGetUInt64 d1;
               mountpoint = DatumGetTextPP d2;
               path = DatumGetTextPP d3;
               header = DatumGetByteaP d4;
               prepend = DatumGetByteaP d6;
               append = DatumGetByteaP d7
           in case bind_chain stmt
                  [(1, sqlite3_bind_int64 inode),
                   (2, sqlite3_bind_text mountpoint),
                   (3, sqlite3_bind_text path),
                   (4, sqlite3_bind_blob header),
                   (5, sqlite3_bind_int64 payload_size),
                   (6, sqlite3_bind_blob prepend),
                   (7, sqlite3_bind_blob append)] of
             (rc, stmt') \<Rightarrow>
               if rc \<noteq> SQLITE_OK then Some (6, db, stmt')
               else case sqlite3_step db stmt' of
                 (rc, db') \<Rightarrow>
                   if rc \<noteq> SQLITE_DONE then Some (3, db', stmt')
                   else Some (0, db', sqlite3_reset stmt')))))))))"

text \<open>The loop over the tuples, in their order: it stops at the first tuple that leaves
  \<open>rc\<close> non-zero or that kills the process. Its first argument is \<open>rc\<close> as it stands before
  the loop, which is what is left when there is no tuple.\<close>

fun insert_files_loop :: "int \<Rightarrow> sqlite3 \<Rightarrow> sqlite3_stmt option \<Rightarrow> TupleDesc \<Rightarrow> HeapTuple list \<Rightarrow> (int \<times> sqlite3) option" where
  "insert_files_loop rc db stmt td [] = Some (rc, db)"
| "insert_files_loop rc db stmt td (tuple # tuples) =
     (case insert_files_tuple db stmt td tuple of
        None \<Rightarrow> None
      | Some (rc', db', stmt') \<Rightarrow>
          if rc' \<noteq> 0 then Some (rc', db') else insert_files_loop rc' db' stmt' td tuples)"

text \<open>From \<open>SPI_execute\<close> to the label \<open>bailout_spi\<close>: the checks of the shape of the result,
  then the loop.\<close>

definition insert_files_spi :: "sqlite3 \<Rightarrow> sqlite3_stmt option \<Rightarrow> spi \<Rightarrow> (int \<times> sqlite3) option" where
  "insert_files_spi db stmt s =
     (let td = tupdesc (SPI_tuptable s) in
      if SPI_execute s \<noteq> SPI_OK_SELECT then Some (2, db)
      else if natts td \<noteq> 4 then Some (3, db)
      else if type_mismatch td
                [(0, INT8OID), (1, TEXTOID), (2, TEXTOID), (3, BYTEAOID),
                 (4, INT8OID), (5, BYTEAOID), (6, BYTEAOID)] then Some (4, db)
      else insert_files_loop (SPI_execute s) db stmt td (vals (SPI_tuptable s)))"

text \<open>The end of both loaders, from the label \<open>close_sqlite_stmt\<close>: the transaction is rolled
  back when \<open>rc\<close> is not 0 and committed otherwise, and \<open>rc\<close> becomes the result of that
  statement.\<close>

definition close_transaction :: "int \<Rightarrow> sqlite3 \<Rightarrow> pg_result \<times> store_file" where
  "close_transaction rc db =
     (case sqlite3_exec db (if rc \<noteq> 0 then ROLLBACK else COMMIT) of
        (rc', db') \<Rightarrow> (PG_RETURN_BOOL (rc' = SQLITE_OK), sqlite3_close db'))"

text \<open>A backend that is killed inside the loop never reaches \<open>close_sqlite_stmt\<close>: the
  transaction that BEGIN opened on the handle is not committed, and the file holds what
  it held then (SQLite rolls the journal of a dead writer back when the file is opened
  next).\<close>

definition killed_in_transaction :: "sqlite3 \<Rightarrow> pg_result \<times> store_file" where
  "killed_in_transaction db = (SIGSEGV, Some (disk db))"

definition pg_sqlite_fs_insert_files :: "FunctionCallInfo \<Rightarrow> spi \<Rightarrow> store_file \<Rightarrow> pg_result \<times> store_file" where
  "pg_sqlite_fs_insert_files fcinfo s file =
     (if PG_NARGS fcinfo \<noteq> 2 then (ERROR, file)
      else if PG_ARGISNULL fcinfo 0 \<or> PG_ARGISNULL fcinfo 1 then (ERROR, file)
      else case sqlite3_open file of
        Inl rc \<Rightarrow> (PG_RETURN_BOOL False, file)
      | Inr db \<Rightarrow>
          (case sqlite3_exec db BEGIN_TRANSACTION of
             (rc, db1) \<Rightarrow>
               if rc \<noteq> SQLITE_OK then (PG_RETURN_BOOL False, sqlite3_close db1)
               else case sqlite3_prepare_v2 db1 INSERT_INTO_files of
                 (rc, stmt) \<Rightarrow>
                   if rc \<noteq> SQLITE_OK then close_transaction 1 db1
                   else if SPI_connect s \<noteq> SPI_OK_CONNECT then close_transaction (SPI_connect s) db1
                   else case insert_files_spi db1 stmt s of
                     None \<Rightarrow> killed_in_transaction db1
                   | Some (rc, db2) \<Rightarrow> close_transaction rc db2))"

subsection \<open>\<open>pg_sqlite_fs_insert_entries\<close>\<close>

text \<open>The columns are read in the order inode, name, parent_inode, ctime, mtime, nlink,
  size, is_dir, each followed by the test of \<open>isnull\<close> that sets \<open>rc = 1\<close> and leaves the
  loop. name is the one column that is detoasted.\<close>

definition insert_entries_tuple :: "sqlite3 \<Rightarrow> sqlite3_stmt option \<Rightarrow> TupleDesc \<Rightarrow> HeapTuple \<Rightarrow> (int \<times> sqlite3 \<times> sqlite3_stmt option) option" where
  "insert_entries_tuple db stmt td tuple =
     (case SPI_getbinval tuple td 1 of
        None \<Rightarrow> Some (1, db, stmt)
      | Some d1 \<Rightarrow>
     (case SPI_getbinval tuple td 2 of
        None \<Rightarrow> None
      | Some d2 \<Rightarrow>
     (case SPI_getbinval tuple td 3 of
        None \<Rightarrow> Some (1, db, stmt)
      | Some d3 \<Rightarrow>
     (case SPI_getbinval tuple td 4 of
        None \<Rightarrow> Some (1, db, stmt)
      | Some d4 \<Rightarrow>
     (case SPI_getbinval tuple td 5 of
        None \<Rightarrow> Some (1, db, stmt)
      | Some d5 \<Rightarrow>
     (case SPI_getbinval tuple td 6 of
        None \<Rightarrow> Some (1, db, stmt)
      | Some d6 \<Rightarrow>
     (case SPI_getbinval tuple td 7 of
        None \<Rightarrow> Some (1, db, stmt)
      | Some d7 \<Rightarrow>
     (case SPI_getbinval tuple td 8 of
        None \<Rightarrow> Some (1, db, stmt)
      | Some d8 \<Rightarrow>
          (let inode = DatumGetUInt64 d1;
               name = DatumGetTextPP d2;
               parent_inode = DatumGetUInt64 d3;
               ctime = DatumGetUInt64 d4;
               mtime = DatumGetUInt64 d5;
               nlink = (ucast (DatumGetUInt32 d6) :: int64);
               size = DatumGetUInt64 d7;
               is_dir = DatumGetBool d8
           in case bind_chain stmt
                  [(1, sqlite3_bind_int64 inode),
                   (2, sqlite3_bind_text name),
                   (3, sqlite3_bind_int64 parent_inode),
                   (4, sqlite3_bind_int64 ctime),
                   (5, sqlite3_bind_int64 mtime),
                   (6, sqlite3_bind_int (ucast nlink)),
                   (7, sqlite3_bind_int64 size),
                   (8, sqlite3_bind_int (if is_dir then 1 else 0))] of
             (rc, stmt') \<Rightarrow>
               if rc \<noteq> SQLITE_OK then Some (6, db, stmt')
               else case sqlite3_step db stmt' of
                 (rc, db') \<Rightarrow>
                   if rc \<noteq> SQLITE_DONE then Some (3, db', stmt')
                   else Some (0, db', sqlite3_reset stmt'))))))))))"

fun insert_entries_loop :: "int \<Rightarrow> sqlite3 \<Rightarrow> sqlite3_stmt option \<Rightarrow> TupleDesc \<Rightarrow> HeapTuple list \<Rightarrow> (int \<times> sqlite3) option" where
  "insert_entries_loop rc db stmt td [] = Some (rc, db)"
| "insert_entries_loop rc db stmt td (tuple # tuples) =
     (case insert_entries_tuple db stmt td tuple of
        None \<Rightarrow> None
      | Some (rc', db', stmt') \<Rightarrow>
          if rc' \<noteq> 0 then Some (rc', db') else insert_entries_loop rc' db' stmt' td tuples)"

definition insert_entries_spi :: "sqlite3 \<Rightarrow> sqlite3_stmt option \<Rightarrow> spi \<Rightarrow> (int \<times> sqlite3) option" where
  "insert_entries_spi db stmt s =
     (let td = tupdesc (SPI_tuptable s) in
      if SPI_execute s \<noteq> SPI_OK_SELECT then Some (2, db)
      else if natts td \<noteq> 9 then Some (3, db)
      else if type_mismatch td
                [(0, INT8OID), (1, TEXTOID), (2, INT8OID), (3, INT8OID), (4, INT8OID),
                 (5, INT4OID), (6, INT8OID), (7, BOOLOID)] then Some (4, db)
      else insert_entries_loop (SPI_execute s) db stmt td (vals (SPI_tuptable s)))"

definition pg_sqlite_fs_insert_entries :: "FunctionCallInfo \<Rightarrow> spi \<Rightarrow> store_file \<Rightarrow> pg_result \<times> store_file" where
  "pg_sqlite_fs_insert_entries fcinfo s file =
     (if PG_NARGS fcinfo \<noteq> 2 then (ERROR, file)
      else if PG_ARGISNULL fcinfo 0 \<or> PG_ARGISNULL fcinfo 1 then (ERROR, file)
      else case sqlite3_open file of
        Inl rc \<Rightarrow> (PG_RETURN_BOOL False, file)
      | Inr db \<Rightarrow>
          (case sqlite3_exec db BEGIN_TRANSACTION of
             (rc, db1) \<Rightarrow>
               if rc \<noteq> SQLITE_OK then (PG_RETURN_BOOL False, sqlite3_close db1)
               else case sqlite3_prepare_v2 db1 INSERT_INTO_entries of
                 (rc, stmt) \<Rightarrow>
                   if rc \<noteq> SQLITE_OK then close_transaction 1 db1
                   else if SPI_connect s \<noteq> SPI_OK_CONNECT then close_transaction (SPI_connect s) db1
                   else case insert_entries_spi db1 stmt s of
                     None \<Rightarrow> killed_in_transaction db1
                   | Some (rc, db2) \<Rightarrow> close_transaction rc db2))"

section \<open>\<open>pg_sqlite_fs_insert_entry\<close> of src/pg_sqlite_fs.c\<close>

text \<open>
  The second source file holds the same operations for a schema in which \<open>entries\<close> has the
  column decrypted_size. Its \<open>pg_sqlite_fs_insert_entry\<close> takes decrypted_size as its fifth
  argument, which may be null, and the other fields after it. It runs on a store whose
  \<open>entries\<close> table has the columns of that file.
\<close>

definition pg_sqlite_fs_insert_entry_decrypted_size :: "FunctionCallInfo \<Rightarrow> store_file \<Rightarrow> pg_result \<times> store_file" where
  "pg_sqlite_fs_insert_entry_decrypted_size fcinfo file =
     (if PG_NARGS fcinfo < 4 then (ERROR, file)
      else if PG_ARGISNULL fcinfo 0 \<or> PG_ARGISNULL fcinfo 1 \<or> PG_ARGISNULL fcinfo 2 \<or>
              PG_ARGISNULL fcinfo 3 then (ERROR, file)
      else case sqlite3_open file of
        Inl rc \<Rightarrow> (PG_RETURN_BOOL False, file)
      | Inr db \<Rightarrow>
          (let inode = PG_GETARG_INT64 fcinfo 1;
               name = PG_GETARG_TEXT_PP fcinfo 2;
               parent_inode = PG_GETARG_INT64 fcinfo 3
           in case sqlite3_prepare_v2 db INSERT_INTO_entries_decrypted_size of
             (rc, stmt) \<Rightarrow>
               if rc \<noteq> SQLITE_OK then (PG_RETURN_BOOL False, sqlite3_close db)
               else case sqlite3_bind stmt 4
                           (if PG_ARGISNULL fcinfo 4 then sqlite3_bind_null
                            else sqlite3_bind_text (PG_GETARG_TEXT_PP fcinfo 4)) of
                 (rc4, stmt) \<Rightarrow>
               (case (if rc4 \<noteq> 0 then (1, stmt)
                      else bind_chain stmt
                        [(1, sqlite3_bind_int64 inode),
                         (2, sqlite3_bind_text name),
                         (3, sqlite3_bind_int64 parent_inode),
                         (5, sqlite3_bind_int64 (PG_GETARG_INT64 fcinfo 5)),
                         (6, sqlite3_bind_int64 (PG_GETARG_INT64 fcinfo 6)),
                         (7, sqlite3_bind_int64 (PG_GETARG_INT64 fcinfo 7)),
                         (8, sqlite3_bind_int64 (PG_GETARG_INT64 fcinfo 8)),
                         (9, sqlite3_bind_int (if PG_GETARG_BOOL fcinfo 9 then 1 else 0))]) of
                 (rc, stmt) \<Rightarrow>
                   if rc \<noteq> SQLITE_OK then (PG_RETURN_BOOL False, sqlite3_close db)
                   else case sqlite3_step db stmt of
                     (rc, db') \<Rightarrow>
                       if rc \<noteq> SQLITE_DONE then (PG_RETURN_BOOL False, sqlite3_close db')
                       else (PG_RETURN_BOOL True, sqlite3_close db'))))"

section \<open>Reading the store\<close>

text \<open>The sources only write. A reader of the file selects entries by inode; the root entry
  is the one with inode 1, name \<open>/\<close> and parent_inode 1.\<close>

definition entries_of :: "store_file \<Rightarrow> table" where
  "entries_of file =
     (case file of None \<Rightarrow> [] | Some d \<Rightarrow> (case entries d of None \<Rightarrow> [] | Some t \<Rightarrow> t))"

definition select_entries_by_inode :: "store_file \<Rightarrow> int64 \<Rightarrow> table" where
  "select_entries_by_inode file i = filter (\<lambda>r. sql_eq (inode r) (INTEGER i)) (entries_of file)"

definition is_root :: "row \<Rightarrow> bool" where
  "is_root r = (inode r = INTEGER 1 \<and> name r = TEXT ''/'' \<and> parent_inode r = INTEGER 1)"

definition root_entries :: "store_file \<Rightarrow> table" where
  "root_entries file = filter is_root (entries_of file)"

text \<open>The places of the root entry are free when no entry other than a root entry has inode
  1, or the name \<open>/\<close> under the parent 1: these are the entries with which the INSERT of the
  root entry conflicts, on the primary key or on the unique index.\<close>

definition root_places_free :: "store_file \<Rightarrow> bool" where
  "root_places_free file =
     list_all (\<lambda>r. is_root r \<or> \<not> (inode r = INTEGER 1 \<or>
                      (parent_inode r = INTEGER 1 \<and> name r = TEXT ''/'')))
       (entries_of file)"

section \<open>Calls and stores used as examples\<close>

definition arg :: "Datum \<Rightarrow> NullableDatum" where
  "arg d = \<lparr>arg_value = d, arg_isnull = False\<rparr>"

definition null_arg :: NullableDatum where
  "null_arg = \<lparr>arg_value = ByVal 0, arg_isnull = True\<rparr>"

definition path_arg :: NullableDatum where
  "path_arg = arg (ByRef ''/srv/fs/store.db'')"

definition query_arg :: NullableDatum where
  "query_arg = arg (ByRef ''SELECT * FROM source'')"

text \<open>The store that \<open>pg_sqlite_fs_create\<close> makes of an absent file.\<close>

definition created :: database where
  "created =
     \<lparr>files = Some [], extended_attributes = Some [], entries = Some [root_row],
      names = True, listing = True\<rparr>"

definition entry_row :: "int64 \<Rightarrow> string \<Rightarrow> int64 \<Rightarrow> row" where
  "entry_row i n p =
     [INTEGER i, TEXT n, INTEGER p, INTEGER 0, INTEGER 0, INTEGER 1, INTEGER 0, INTEGER 1]"

text \<open>A store with the chain \<open>/\<close>, \<open>/a\<close>, \<open>/a/b\<close>, \<open>/a/b/c\<close>.\<close>

definition tree :: database where
  "tree = created\<lparr>entries :=
     Some [root_row, entry_row 2 ''a'' 1, entry_row 3 ''b'' 2, entry_row 4 ''c'' 3]\<rparr>"

text \<open>The call of \<open>pg_sqlite_fs_insert_entry\<close> for an entry with the given fields, all of
  them supplied: src/pg.c takes inode, name, parent_inode, ctime, mtime, nlink, size and
  is_dir after the path, src/pg_sqlite_fs.c takes decrypted_size, which may be null,
  before ctime.\<close>

definition Int64GetDatum :: "int64 \<Rightarrow> Datum" where
  "Int64GetDatum w = ByVal w"

definition BoolGetDatum :: "bool \<Rightarrow> Datum" where
  "BoolGetDatum b = ByVal (if b then 1 else 0)"

definition entry_call :: "int64 \<Rightarrow> string \<Rightarrow> int64 \<Rightarrow> int64 \<Rightarrow> int64 \<Rightarrow> int64 \<Rightarrow> int64 \<Rightarrow> bool \<Rightarrow> FunctionCallInfo" where
  "entry_call i n p c m l s dir =
     [path_arg, arg (Int64GetDatum i), arg (ByRef n), arg (Int64GetDatum p),
      arg (Int64GetDatum c), arg (Int64GetDatum m), arg (Int64GetDatum l),
      arg (Int64GetDatum s), arg (BoolGetDatum dir)]"

definition entry_call_decrypted_size :: "int64 \<Rightarrow> string \<Rightarrow> int64 \<Rightarrow> string option \<Rightarrow> int64 \<Rightarrow> int64 \<Rightarrow> int64 \<Rightarrow> int64 \<Rightarrow> bool \<Rightarrow> FunctionCallInfo" where
  "entry_call_decrypted_size i n p ds c m l s dir =
     [path_arg, arg (Int64GetDatum i), arg (ByRef n), arg (Int64GetDatum p),
      (case ds of None \<Rightarrow> null_arg | Some x \<Rightarrow> arg (ByRef x)),
      arg (Int64GetDatum c), arg (Int64GetDatum m), arg (Int64GetDatum l),
      arg (Int64GetDatum s), arg (BoolGetDatum dir)]"

definition entry_args :: FunctionCallInfo where
  "entry_args =
     [path_arg, arg (ByVal 2), arg (ByRef ''a''), arg (ByVal 1), arg (ByVal 1700000000),
      arg (ByVal 1700000000), arg (ByVal 1), arg (ByVal 0), arg (ByVal 1)]"

definition file_args :: FunctionCallInfo where
  "file_args =
     [path_arg, arg (ByVal 5), arg (ByRef ''/mnt''), arg (ByRef ''a/f.c4gh''),
      arg (ByRef ''header''), arg (ByVal 42), null_arg, null_arg]"

text \<open>A query that SPI runs without error and that returns the given table.\<close>

definition selected :: "SPITupleTable \<Rightarrow> spi" where
  "selected tt = \<lparr>SPI_connect = SPI_OK_CONNECT, SPI_execute = SPI_OK_SELECT, SPI_tuptable = tt\<rparr>"

definition columns :: "Oid list \<Rightarrow> TupleDesc" where
  "columns ts = \<lparr>natts = length ts, atttypid = (\<lambda>p. ts ! p)\<rparr>"

text \<open>A store of the older schema, just created: its root entry has a null decrypted_size.\<close>

definition created_decrypted_size :: database where
  "created_decrypted_size = created\<lparr>entries :=
     Some [[INTEGER 1, TEXT ''/'', INTEGER 1, INTEGER 0, INTEGER 0, INTEGER 1, INTEGER 0, NULL,
            INTEGER 1]]\<rparr>"

text \<open>The eight column types that \<open>pg_sqlite_fs_insert_entries\<close> checks, and a tuple of an
  entry with the given inode, name and parent_inode and a ninth column.\<close>

definition entries_columns :: "Oid list" where
  "entries_columns = [INT8OID, TEXTOID, INT8OID, INT8OID, INT8OID, INT4OID, INT8OID, BOOLOID]"

definition entry_tuple :: "int64 \<Rightarrow> string option \<Rightarrow> int64 \<Rightarrow> Datum option \<Rightarrow> HeapTuple" where
  "entry_tuple i n p ninth =
     [Some (ByVal i), map_option ByRef n, Some (ByVal p), Some (ByVal 10), Some (ByVal 20),
      Some (ByVal 1), Some (ByVal 0), Some (ByVal 1), ninth]"

text \<open>The seven column types that \<open>pg_sqlite_fs_insert_files\<close> checks, in the order of the
  columns it writes.\<close>

definition files_columns :: "Oid list" where
  "files_columns = [INT8OID, TEXTOID, TEXTOID, BYTEAOID, INT8OID, BYTEAOID, BYTEAOID]"

text \<open>The row of \<open>files\<close> for a tuple whose inode, mountpoint, rel_path, header, prepend and
  append are \<open>d1\<close>, \<open>d2\<close>, \<open>d3\<close>, \<open>d4\<close>, \<open>d6\<close> and \<open>d7\<close> and whose payload_size may be null: a
  null payload_size is 0 in the row.\<close>

definition files_row :: "Datum \<Rightarrow> Datum \<Rightarrow> Datum \<Rightarrow> Datum \<Rightarrow> Datum option \<Rightarrow> Datum \<Rightarrow> Datum \<Rightarrow> row" where
  "files_row d1 d2 d3 d4 payload_size d6 d7 =
     [INTEGER (DatumGetUInt64 d1), TEXT (DatumGetTextPP d2), TEXT (DatumGetTextPP d3),
      BLOB (DatumGetByteaP d4),
      INTEGER (case payload_size of None \<Rightarrow> 0 | Some d \<Rightarrow> DatumGetUInt64 d),
      BLOB (DatumGetByteaP d6), BLOB (DatumGetByteaP d7)]"



section \<open>Basic facts\<close>

lemmas sqlite_codes =
  SQLITE_OK_def SQLITE_ERROR_def SQLITE_CANTOPEN_def SQLITE_CONSTRAINT_def
  SQLITE_MISUSE_def SQLITE_RANGE_def SQLITE_ROW_def SQLITE_DONE_def

lemmas arg_defs =
  PG_NARGS_def PG_ARGISNULL_def PG_GETARG_INT64_def PG_GETARG_BOOL_def
  PG_GETARG_TEXT_PP_def PG_GETARG_BYTEA_PP_def arg_def null_arg_def path_arg_def query_arg_def

lemmas column_defs = inode_def name_def parent_inode_def

lemma current_store [simp]: "current (store db d) = d"
  by (simp add: current_def store_def split: option.splits)

lemma sql_eq_INTEGER [simp]: "sql_eq a (INTEGER i) = (a = INTEGER i)"
  by (auto simp: sql_eq_def)

lemma distinct_map_eq:
  "distinct (map f xs) \<Longrightarrow> x \<in> set xs \<Longrightarrow> y \<in> set xs \<Longrightarrow> f x = f y \<Longrightarrow> x = y"
  by (meson distinct_map inj_on_def)

text \<open>No statement of the sources produces a result row, so the loop of
  \<open>pg_sqlite_fs_delete_entry\<close> ends after one step.\<close>

lemma sqlite3_step_not_ROW: "fst (sqlite3_step db stmt) \<noteq> SQLITE_ROW"
  by (auto simp: sqlite3_step_def sqlite_codes upsert_entries_def upsert_files_def
      split: option.splits stmt_sql.splits sum.splits if_splits)

lemma step_until_done_eq:
  "step_until_done db stmt =
     Some (if fst (sqlite3_step db stmt) = SQLITE_DONE then 0 else 1, snd (sqlite3_step db stmt))"
  using sqlite3_step_not_ROW [of db stmt]
  by (subst step_until_done.simps) (auto split: prod.splits)

section \<open>Deleting an entry\<close>

lemma delete_entry_present:
  assumes "entries d = Some t"
  shows "pg_sqlite_fs_delete_entry fcinfo (Some d) =
     Some (PG_RETURN_BOOL True,
           Some (d\<lparr>entries := Some (filter (\<lambda>r. inode r \<noteq> INTEGER (PG_GETARG_INT64 fcinfo 1) \<and>
                      parent_inode r \<noteq> INTEGER (PG_GETARG_INT64 fcinfo 1)) t)\<rparr>))"
  using assms
  by (simp add: pg_sqlite_fs_delete_entry_def sqlite3_open_v2_def sqlite3_prepare_v2_def
      current_def sqlite3_bind_def sqlite3_bind_int64_def sqlite_codes step_until_done_eq
      sqlite3_step_def store_def sqlite3_close_def)

text \<open>
  C8. On a store with an \<open>entries\<close> table, \<open>pg_sqlite_fs_delete_entry\<close> with inode \<open>i\<close>
  returns true and leaves exactly the rows whose inode and whose parent_inode both differ
  from \<open>i\<close>: it removes the entry \<open>i\<close> and the entries whose parent is \<open>i\<close>, and nothing
  else. So an entry \<open>g\<close> other than \<open>i\<close> whose parent \<open>c\<close> is a removed child of \<open>i\<close> stays,
  its child \<open>c\<close> is gone, and (inodes being unique, as the primary key has it) no row is
  left with the inode that \<open>g\<close> names as its parent.
\<close>

theorem delete_entry_one_level:
  assumes "entries d = Some t" and "i = PG_GETARG_INT64 fcinfo 1"
  shows "\<exists>t'. pg_sqlite_fs_delete_entry fcinfo (Some d) =
                 Some (PG_RETURN_BOOL True, Some (d\<lparr>entries := Some t'\<rparr>)) \<and>
              t' = filter (\<lambda>r. inode r \<noteq> INTEGER i \<and> parent_inode r \<noteq> INTEGER i) t \<and>
              (\<forall>g c. distinct (map inode t) \<and> c \<in> set t \<and> g \<in> set t \<and>
                     parent_inode c = INTEGER i \<and> inode c \<noteq> INTEGER i \<and>
                     parent_inode g = inode c \<and> inode g \<noteq> INTEGER i
                 \<longrightarrow> g \<in> set t' \<and> c \<notin> set t' \<and> (\<forall>r \<in> set t'. inode r \<noteq> parent_inode g))"
proof -
  let ?t' = "filter (\<lambda>r. inode r \<noteq> INTEGER i \<and> parent_inode r \<noteq> INTEGER i) t"
  have run: "pg_sqlite_fs_delete_entry fcinfo (Some d) =
               Some (PG_RETURN_BOOL True, Some (d\<lparr>entries := Some ?t'\<rparr>))"
    using assms by (simp add: delete_entry_present)
  have deep: "g \<in> set ?t' \<and> c \<notin> set ?t' \<and> (\<forall>r \<in> set ?t'. inode r \<noteq> parent_inode g)"
    if h: "distinct (map inode t)" "c \<in> set t" "g \<in> set t" "parent_inode c = INTEGER i"
      "inode c \<noteq> INTEGER i" "parent_inode g = inode c" "inode g \<noteq> INTEGER i" for g c
  proof (intro conjI ballI)
    show "g \<in> set ?t'" using h by simp
    show "c \<notin> set ?t'" using h by simp
    fix r assume r: "r \<in> set ?t'"
    show "inode r \<noteq> parent_inode g"
    proof
      assume "inode r = parent_inode g"
      then have "inode r = inode c" using h by simp
      moreover have "r \<in> set t" using r by simp
      ultimately have "r = c" using h distinct_map_eq [of inode t r c] by blast
      then show False using r h by simp
    qed
  qed
  show ?thesis using run deep by blast
qed

text \<open>Deleting \<open>/a\<close> (inode 2) from the chain removes \<open>/a\<close> and \<open>/a/b\<close> and leaves \<open>/a/b/c\<close>
  with a parent that no longer exists.\<close>

theorem delete_entry_one_level_witness:
  "pg_sqlite_fs_delete_entry [path_arg, arg (ByVal 2)] (Some tree) =
     Some (PG_RETURN_BOOL True, Some (tree\<lparr>entries := Some [root_row, entry_row 4 ''c'' 3]\<rparr>)) \<and>
   parent_inode (entry_row 4 ''c'' 3) = INTEGER 3 \<and>
   inode root_row \<noteq> INTEGER 3 \<and> inode (entry_row 4 ''c'' 3) \<noteq> INTEGER 3"
proof -
  let ?t = "[root_row, entry_row 2 ''a'' 1, entry_row 3 ''b'' 2, entry_row 4 ''c'' 3]"
  have e: "entries tree = Some ?t"
    by (simp add: tree_def)
  have i: "(2::int64) = PG_GETARG_INT64 [path_arg, arg (ByVal 2)] 1"
    by (simp add: arg_defs)
  have t': "filter (\<lambda>r. inode r \<noteq> INTEGER 2 \<and> parent_inode r \<noteq> INTEGER 2) ?t =
              [root_row, entry_row 4 ''c'' 3]"
    by (simp add: root_row_def entry_row_def column_defs)
  have h: "distinct (map inode ?t) \<and> entry_row 3 ''b'' 2 \<in> set ?t \<and> entry_row 4 ''c'' 3 \<in> set ?t \<and>
           parent_inode (entry_row 3 ''b'' 2) = INTEGER 2 \<and> inode (entry_row 3 ''b'' 2) \<noteq> INTEGER 2 \<and>
           parent_inode (entry_row 4 ''c'' 3) = inode (entry_row 3 ''b'' 2) \<and>
           inode (entry_row 4 ''c'' 3) \<noteq> INTEGER 2"
    by (simp add: root_row_def entry_row_def column_defs)
  from delete_entry_one_level [OF e i] h show ?thesis
    unfolding t' by (auto simp: entry_row_def root_row_def column_defs)
qed

section \<open>Truncation\<close>

lemma truncate_table_absent: "pg_sqlite_fs_truncate_table fcinfo q None = (ERROR, None)"
  by (simp add: pg_sqlite_fs_truncate_table_def sqlite3_open_v2_def)

lemma truncate_entries_present:
  "pg_sqlite_fs_truncate_entries fcinfo (Some d) =
     (case entries d of
        None \<Rightarrow> (PG_RETURN_BOOL False, Some d)
      | Some t \<Rightarrow> (PG_RETURN_BOOL True, Some (d\<lparr>entries := Some (filter (\<lambda>r. \<not> gt_1 (inode r)) t)\<rparr>)))"
  by (simp add: pg_sqlite_fs_truncate_entries_def pg_sqlite_fs_truncate_table_def
      sqlite3_open_v2_def current_def store_def sqlite3_close_def sqlite_codes split: option.splits)

lemma truncate_files_present:
  "pg_sqlite_fs_truncate_files fcinfo (Some d) =
     (case files d of
        None \<Rightarrow> (PG_RETURN_BOOL False, Some d)
      | Some t \<Rightarrow> (PG_RETURN_BOOL True, Some (d\<lparr>files := Some []\<rparr>)))"
  by (simp add: pg_sqlite_fs_truncate_files_def pg_sqlite_fs_truncate_table_def
      sqlite3_open_v2_def current_def store_def sqlite3_close_def sqlite_codes split: option.splits)

text \<open>
  C7, as amended. After a successful \<open>pg_sqlite_fs_truncate_files\<close> the \<open>files\<close> table is
  empty and nothing else has changed. After a successful \<open>pg_sqlite_fs_truncate_entries\<close>
  the \<open>entries\<close> table holds, in their order, exactly the rows it held whose inode is not
  greater than 1 in SQLite's comparison (for an integer inode: not above 1 as a signed
  64-bit value); the rows with an inode above 1 are removed.
\<close>

theorem truncate_files_and_entries:
  "(pg_sqlite_fs_truncate_files fcinfo file = (PG_RETURN_BOOL True, file') \<longrightarrow>
      (\<exists>d. file = Some d \<and> file' = Some (d\<lparr>files := Some []\<rparr>))) \<and>
   (pg_sqlite_fs_truncate_entries fcinfo file = (PG_RETURN_BOOL True, file') \<longrightarrow>
      (\<exists>d t. file = Some d \<and> entries d = Some t \<and>
         file' = Some (d\<lparr>entries := Some (filter (\<lambda>r. \<not> gt_1 (inode r)) t)\<rparr>)))"
proof (cases "file")
  case None
  then show ?thesis
    by (simp add: pg_sqlite_fs_truncate_files_def pg_sqlite_fs_truncate_entries_def
        truncate_table_absent)
next
  case (Some d)
  then show ?thesis
    by (auto simp: truncate_files_present truncate_entries_present split: option.splits)
qed

theorem truncate_files_and_entries_witness:
  "pg_sqlite_fs_truncate_files [path_arg]
      (Some (created\<lparr>files := Some [[INTEGER 5, TEXT ''m'', TEXT ''p'', NULL, INTEGER 0, NULL, NULL]]\<rparr>)) =
     (PG_RETURN_BOOL True, Some created) \<and>
   pg_sqlite_fs_truncate_entries [path_arg] (Some tree) = (PG_RETURN_BOOL True, Some created)"
proof -
  let ?d = "created\<lparr>files := Some [[INTEGER 5, TEXT ''m'', TEXT ''p'', NULL, INTEGER 0, NULL, NULL]]\<rparr>"
  obtain f1 where r1: "pg_sqlite_fs_truncate_files [path_arg] (Some ?d) = (PG_RETURN_BOOL True, f1)"
    by (simp add: truncate_files_present created_def)
  obtain f2 where r2: "pg_sqlite_fs_truncate_entries [path_arg] (Some tree) = (PG_RETURN_BOOL True, f2)"
    by (simp add: truncate_entries_present tree_def created_def)
  from truncate_files_and_entries [of "[path_arg]" "Some ?d" f1] r1
  have "f1 = Some created" by (auto simp: created_def)
  moreover from truncate_files_and_entries [of "[path_arg]" "Some tree" f2] r2
  have "f2 = Some created"
    by (auto simp: tree_def created_def root_row_def entry_row_def column_defs word_sless_alt)
  ultimately show ?thesis using r1 r2 by simp
qed

text \<open>The claim as written fails on a store that holds an entry with inode 0: the
  truncation succeeds and the entry, whose inode is not 1, is still there.\<close>

theorem truncate_entries_keeps_inode_0:
  "pg_sqlite_fs_truncate_entries [path_arg]
      (Some (created\<lparr>entries := Some [root_row, entry_row 0 ''lost'' 1, entry_row 5 ''f'' 1]\<rparr>)) =
     (PG_RETURN_BOOL True, Some (created\<lparr>entries := Some [root_row, entry_row 0 ''lost'' 1]\<rparr>)) \<and>
   inode (entry_row 0 ''lost'' 1) \<noteq> INTEGER 1"
  by (simp add: truncate_entries_present created_def root_row_def entry_row_def column_defs
      word_sless_alt)

section \<open>Creating the store\<close>

lemma create_empty:
  "exec_in_order \<lparr>disk = empty_database, txn = None\<rparr> create_statements =
     (0, \<lparr>disk = created, txn = None\<rparr>)"
  by (simp add: create_statements_def empty_database_def current_def store_def sqlite_codes
      created_def column_defs)

lemma create_absent:
  "pg_sqlite_fs_create fcinfo None =
     (if PG_NARGS fcinfo \<noteq> 1 \<or> PG_ARGISNULL fcinfo 0 then (ERROR, None)
      else (PG_RETURN_BOOL True, Some created))"
  using create_empty
  by (simp add: pg_sqlite_fs_create_def sqlite3_open_def sqlite3_open_v2_def sqlite3_close_def)


lemma exec_keeps_entries:
  assumes "entries (current db) = Some t" and "\<exists>r \<in> set t. inode r = INTEGER 1"
    and "q \<in> set create_statements" and "txn db = None"
  shows "entries (current (snd (sqlite3_exec db q))) = Some t \<and> txn (snd (sqlite3_exec db q)) = None"
  using assms
  by (cases q) (auto simp: create_statements_def current_def store_def split: option.splits)

lemma exec_in_order_keeps_entries:
  assumes "entries (current db) = Some t" and "\<exists>r \<in> set t. inode r = INTEGER 1"
    and "set qs \<subseteq> set create_statements" and "txn db = None"
  shows "entries (current (snd (exec_in_order db qs))) = Some t \<and> txn (snd (exec_in_order db qs)) = None"
  using assms
proof (induction qs arbitrary: db)
  case Nil
  then show ?case by simp
next
  case (Cons q qs)
  obtain rc db' where e: "sqlite3_exec db q = (rc, db')" by (cases "sqlite3_exec db q")
  have k: "entries (current db') = Some t \<and> txn db' = None"
    using exec_keeps_entries [of db t q] Cons.prems e by simp
  show ?case
  proof (cases "rc \<noteq> SQLITE_OK")
    case True
    then show ?thesis using e k by simp
  next
    case False
    then show ?thesis using e k Cons.IH [of db'] Cons.prems by simp
  qed
qed

lemma create_keeps_entries:
  assumes "entries d = Some t" and "\<exists>r \<in> set t. inode r = INTEGER 1"
  shows "entries_of (snd (pg_sqlite_fs_create fcinfo (Some d))) = t"
proof -
  let ?db = "\<lparr>disk = d, txn = None\<rparr>"
  have p: "entries (current ?db) = Some t" and q: "txn ?db = None"
    using assms by (simp_all add: current_def)
  from exec_in_order_keeps_entries [OF p assms(2) subset_refl q]
  have a: "entries (current (snd (exec_in_order ?db create_statements))) = Some t"
    and b: "txn (snd (exec_in_order ?db create_statements)) = None"
    by simp_all
  have "entries (disk (snd (exec_in_order ?db create_statements))) = Some t"
    using a by (simp add: current_def b)
  then show ?thesis using assms
    by (simp add: pg_sqlite_fs_create_def sqlite3_open_def sqlite3_open_v2_def entries_of_def
        sqlite3_close_def case_prod_beta)
qed


lemma filter_filter_imp: "(\<And>x. P x \<Longrightarrow> Q x) \<Longrightarrow> filter P (filter Q xs) = filter P xs"
  by (induction xs) auto

lemma root_entries_present:
  assumes "root_entries file \<noteq> []"
  shows "\<exists>d t. file = Some d \<and> entries d = Some t \<and> (\<exists>r \<in> set t. inode r = INTEGER 1)"
proof -
  obtain r where r: "r \<in> set (entries_of file)" "is_root r"
    using assms by (auto simp: root_entries_def filter_empty_conv)
  then obtain d where d: "file = Some d"
    by (cases "file") (auto simp: entries_of_def)
  with r obtain t where t: "entries d = Some t"
    by (cases "entries d") (auto simp: entries_of_def)
  with r d have "r \<in> set t" by (simp add: entries_of_def)
  with r d t show ?thesis by (auto simp: is_root_def)
qed

lemma root_entries_filter:
  assumes "\<And>r. is_root r \<Longrightarrow> Q r" and "entries d = Some t"
  shows "root_entries (Some (d\<lparr>entries := Some (filter Q t)\<rparr>)) = root_entries (Some d)"
proof -
  have "filter is_root (filter Q t) = filter is_root t"
    using assms(1) by (rule filter_filter_imp)
  then show ?thesis using assms(2) by (simp add: root_entries_def entries_of_def)
qed

text \<open>A store that \<open>pg_sqlite_fs_create\<close> has created with success has the unique index
  \<open>names\<close>, whatever it held before.\<close>

lemma exec_keeps_names:
  assumes "q \<in> set create_statements" and "txn db = None"
  shows "txn (snd (sqlite3_exec db q)) = None \<and>
         (names (disk db) \<longrightarrow> names (disk (snd (sqlite3_exec db q)))) \<and>
         (q = CREATE_UNIQUE_INDEX_IF_NOT_EXISTS_names \<and> fst (sqlite3_exec db q) = SQLITE_OK \<longrightarrow>
            names (disk (snd (sqlite3_exec db q))))"
  using assms
  by (cases q) (auto simp: create_statements_def current_def store_def sqlite_codes split: option.splits)

lemma exec_in_order_names:
  assumes "set qs \<subseteq> set create_statements" and "txn db = None"
    and "exec_in_order db qs = (0, db')"
    and "names (disk db) \<or> CREATE_UNIQUE_INDEX_IF_NOT_EXISTS_names \<in> set qs"
  shows "txn db' = None \<and> names (disk db')"
  using assms
proof (induction qs arbitrary: db)
  case Nil
  then show ?case by simp
next
  case (Cons q qs)
  obtain rc db1 where e: "sqlite3_exec db q = (rc, db1)" by (cases "sqlite3_exec db q")
  have q: "q \<in> set create_statements" using Cons.prems(1) by simp
  from exec_keeps_names [OF q Cons.prems(2)]
  have k: "txn db1 = None" "names (disk db) \<longrightarrow> names (disk db1)"
    "q = CREATE_UNIQUE_INDEX_IF_NOT_EXISTS_names \<and> rc = SQLITE_OK \<longrightarrow> names (disk db1)"
    unfolding e by (simp_all del: sqlite3_exec.simps)
  have ok: "rc = SQLITE_OK" and rest: "exec_in_order db1 qs = (0, db')"
    using Cons.prems(3) e by (auto split: if_splits)
  have "names (disk db1) \<or> CREATE_UNIQUE_INDEX_IF_NOT_EXISTS_names \<in> set qs"
    using Cons.prems(4) k ok by auto
  then show ?case using Cons.IH [OF _ k(1) rest] Cons.prems(1) by simp
qed

lemma create_makes_names:
  assumes "pg_sqlite_fs_create fcinfo file = (PG_RETURN_BOOL True, file')"
  shows "\<exists>d. file' = Some d \<and> names d"
proof -
  obtain db where o: "sqlite3_open file = Inr db" "txn db = None"
    by (cases "file") (auto simp: sqlite3_open_def sqlite3_open_v2_def)
  obtain rc db' where r: "exec_in_order db create_statements = (rc, db')"
    by (cases "exec_in_order db create_statements")
  have "rc = 0" and f: "file' = Some (disk db')"
    using assms o r by (auto simp: pg_sqlite_fs_create_def sqlite3_close_def split: if_splits)
  then have "names (disk db')"
    using exec_in_order_names [OF subset_refl o(2), of db'] r by (simp add: create_statements_def)
  then show ?thesis using f by simp
qed

text \<open>What a successful \<open>pg_sqlite_fs_create\<close> does to the entries, on any store: the five
  statements of the schema leave them as they are (in a table that now exists, with the
  unique index), and the INSERT appends the root row unless it conflicts.\<close>

lemma exec_in_order_append:
  "exec_in_order db (qs @ [q]) =
     (case exec_in_order db qs of
        (rc, db') \<Rightarrow> if rc \<noteq> 0 then (rc, db') else exec_in_order db' [q])"
  by (induction qs arbitrary: db) (auto split: prod.splits)

lemma exec_schema:
  assumes "q \<in> set create_statements" and "q \<noteq> INSERT_root_ON_CONFLICT_DO_NOTHING"
    and "txn db = None"
  shows "txn (snd (sqlite3_exec db q)) = None \<and>
         entries_of (Some (disk (snd (sqlite3_exec db q)))) = entries_of (Some (disk db)) \<and>
         (entries (disk db) \<noteq> None \<longrightarrow> entries (disk (snd (sqlite3_exec db q))) \<noteq> None) \<and>
         (q = CREATE_TABLE_IF_NOT_EXISTS_entries \<longrightarrow> entries (disk (snd (sqlite3_exec db q))) \<noteq> None)"
  using assms
  by (cases q)
    (auto simp: create_statements_def current_def store_def entries_of_def
      split: option.splits if_splits)

lemma exec_in_order_schema:
  assumes "set qs \<subseteq> set create_statements" and "INSERT_root_ON_CONFLICT_DO_NOTHING \<notin> set qs"
    and "txn db = None" and "exec_in_order db qs = (0, db')"
    and "entries (disk db) \<noteq> None \<or> CREATE_TABLE_IF_NOT_EXISTS_entries \<in> set qs"
  shows "txn db' = None \<and> entries_of (Some (disk db')) = entries_of (Some (disk db)) \<and>
         entries (disk db') \<noteq> None"
  using assms
proof (induction qs arbitrary: db)
  case Nil
  then show ?case by simp
next
  case (Cons q qs)
  obtain rc db1 where e: "sqlite3_exec db q = (rc, db1)" by (cases "sqlite3_exec db q")
  have q: "q \<in> set create_statements" "q \<noteq> INSERT_root_ON_CONFLICT_DO_NOTHING"
    using Cons.prems(1,2) by auto
  from exec_schema [OF q Cons.prems(3)]
  have k: "txn db1 = None" "entries_of (Some (disk db1)) = entries_of (Some (disk db))"
    "entries (disk db) \<noteq> None \<longrightarrow> entries (disk db1) \<noteq> None"
    "q = CREATE_TABLE_IF_NOT_EXISTS_entries \<longrightarrow> entries (disk db1) \<noteq> None"
    unfolding e by (simp_all del: sqlite3_exec.simps)
  have rest: "exec_in_order db1 qs = (0, db')"
    using Cons.prems(4) e by (auto split: if_splits)
  have "entries (disk db1) \<noteq> None \<or> CREATE_TABLE_IF_NOT_EXISTS_entries \<in> set qs"
    using Cons.prems(5) k by auto
  then show ?case using Cons.IH [OF _ _ k(1) rest] Cons.prems(1,2) k(2) by simp
qed

lemma create_statements_append:
  "create_statements =
     [CREATE_TABLE_IF_NOT_EXISTS_files, CREATE_TABLE_IF_NOT_EXISTS_extended_attributes,
      CREATE_TABLE_IF_NOT_EXISTS_entries, CREATE_UNIQUE_INDEX_IF_NOT_EXISTS_names,
      CREATE_INDEX_IF_NOT_EXISTS_listing] @ [INSERT_root_ON_CONFLICT_DO_NOTHING]"
  by (simp add: create_statements_def)

lemma insert_root:
  assumes "txn db = None" and "entries (disk db) = Some t" and "names (disk db)"
  shows "exec_in_order db [INSERT_root_ON_CONFLICT_DO_NOTHING] =
     (0, if \<exists>r \<in> set t. inode r = INTEGER 1 \<or> (parent_inode r = INTEGER 1 \<and> name r = TEXT ''/'')
         then db else db\<lparr>disk := (disk db)\<lparr>entries := Some (t @ [root_row])\<rparr>\<rparr>)"
  using assms by (auto simp: current_def store_def sqlite_codes)

lemma create_root:
  assumes "pg_sqlite_fs_create fcinfo file = (PG_RETURN_BOOL True, file')"
  shows "entries_of file' =
     (if \<exists>r \<in> set (entries_of file). inode r = INTEGER 1 \<or>
           (parent_inode r = INTEGER 1 \<and> name r = TEXT ''/'')
      then entries_of file else entries_of file @ [root_row])"
proof -
  let ?schema = "[CREATE_TABLE_IF_NOT_EXISTS_files, CREATE_TABLE_IF_NOT_EXISTS_extended_attributes,
      CREATE_TABLE_IF_NOT_EXISTS_entries, CREATE_UNIQUE_INDEX_IF_NOT_EXISTS_names,
      CREATE_INDEX_IF_NOT_EXISTS_listing]"
  obtain db where o: "sqlite3_open file = Inr db" "txn db = None"
    and f: "entries_of (Some (disk db)) = entries_of file"
    by (cases "file")
      (auto simp: sqlite3_open_def sqlite3_open_v2_def entries_of_def empty_database_def)
  obtain rc1 db1 where s: "exec_in_order db ?schema = (rc1, db1)"
    by (cases "exec_in_order db ?schema")
  obtain rc2 db2 where r: "exec_in_order db create_statements = (rc2, db2)"
    by (cases "exec_in_order db create_statements")
  have ok: "rc2 = 0" and f': "file' = Some (disk db2)"
    using assms o r by (auto simp: pg_sqlite_fs_create_def sqlite3_close_def split: if_splits)
  have a: "(rc2, db2) = (if rc1 \<noteq> 0 then (rc1, db1)
                         else exec_in_order db1 [INSERT_root_ON_CONFLICT_DO_NOTHING])"
    using r s unfolding create_statements_append exec_in_order_append
    by (simp del: exec_in_order.simps)
  then have rc1: "rc1 = 0" using ok by (auto split: if_splits)
  then have i: "exec_in_order db1 [INSERT_root_ON_CONFLICT_DO_NOTHING] = (0, db2)"
    using a ok by (simp del: exec_in_order.simps)
  have sub: "set ?schema \<subseteq> set create_statements" by (simp add: create_statements_def)
  from exec_in_order_schema [OF sub _ o(2), of db1] s rc1
  have k: "txn db1 = None" "entries_of (Some (disk db1)) = entries_of (Some (disk db))"
    "entries (disk db1) \<noteq> None"
    by simp_all
  from exec_in_order_names [OF sub o(2), of db1] s rc1
  have n: "names (disk db1)" by simp
  obtain t where t: "entries (disk db1) = Some t" using k(3) by auto
  then have e: "t = entries_of file" using k(2) f by (simp add: entries_of_def)
  let ?conflict = "\<exists>r \<in> set t. inode r = INTEGER 1 \<or>
                     (parent_inode r = INTEGER 1 \<and> name r = TEXT ''/'')"
  have "db2 = (if ?conflict then db1
               else db1\<lparr>disk := (disk db1)\<lparr>entries := Some (t @ [root_row])\<rparr>\<rparr>)"
    using i insert_root [OF k(1) t n] by (simp del: exec_in_order.simps)
  then have "entries (disk db2) = Some (if ?conflict then t else t @ [root_row])"
    using t by auto
  then have "entries_of file' = (if ?conflict then t else t @ [root_row])"
    by (simp add: f' entries_of_def)
  then show ?thesis unfolding e .
qed

text \<open>The primary key of \<open>entries\<close> is inode: a table in which no two rows share an inode has
  at most one root entry.\<close>

lemma distinct_constant:
  assumes "distinct (map f xs)" and "\<forall>x \<in> set xs. f x = c"
  shows "length xs \<le> 1"
proof (cases xs)
  case Nil
  then show ?thesis by simp
next
  case (Cons x ys)
  then show ?thesis using assms by (cases ys) auto
qed

lemma root_entries_at_most_one:
  assumes "distinct (map inode t)"
  shows "length (filter is_root t) \<le> 1"
proof -
  have "distinct (map inode (filter is_root t))"
    using assms by (rule distinct_map_filter)
  moreover have "\<forall>r \<in> set (filter is_root t). inode r = INTEGER 1"
    by (simp add: is_root_def)
  ultimately show ?thesis by (rule distinct_constant)
qed

text \<open>
  C4, as amended. When \<open>pg_sqlite_fs_create\<close> succeeds on a store, absent or present, in
  which the places of the root entry are free (no entry other than a root entry has inode
  1, or the name \<open>/\<close> under the parent 1), the store holds a root entry (inode 1, name \<open>/\<close>,
  parent_inode 1) afterwards: the row of the INSERT when it held none before, and the root
  entries it held otherwise. So it holds exactly one when it held at most one before,
  which is all that the primary key allows. On a
  store that holds exactly one root entry, creating again, truncating the entries, and
  deleting the entry of any inode other than 1 leave the root entry in place, whatever
  they return. \<open>pg_sqlite_fs_delete_entry\<close> with inode 1 succeeds and removes it.
\<close>

theorem root_entry_kept:
  "(pg_sqlite_fs_create fcinfo file = (PG_RETURN_BOOL True, file') \<and> root_places_free file \<longrightarrow>
      root_entries file' \<noteq> [] \<and>
      (root_entries file = [] \<longrightarrow> root_entries file' = [root_row]) \<and>
      (root_entries file \<noteq> [] \<longrightarrow> root_entries file' = root_entries file) \<and>
      (length (root_entries file) \<le> 1 \<longrightarrow> length (root_entries file') = 1)) \<and>
   (length (root_entries file) = 1 \<longrightarrow>
      (pg_sqlite_fs_create fcinfo file = (res, file') \<longrightarrow> root_entries file' = root_entries file) \<and>
      (pg_sqlite_fs_truncate_entries fcinfo file = (res, file') \<longrightarrow>
         root_entries file' = root_entries file) \<and>
      (pg_sqlite_fs_delete_entry fcinfo file = Some (res, file') \<and> PG_GETARG_INT64 fcinfo 1 \<noteq> 1 \<longrightarrow>
         root_entries file' = root_entries file) \<and>
      (pg_sqlite_fs_delete_entry fcinfo file = Some (res, file') \<and> PG_GETARG_INT64 fcinfo 1 = 1 \<longrightarrow>
         res = PG_RETURN_BOOL True \<and> root_entries file' = []))"
proof (intro conjI impI)
  assume h: "pg_sqlite_fs_create fcinfo file = (PG_RETURN_BOOL True, file') \<and> root_places_free file"
  let ?E = "entries_of file"
  let ?conflict = "\<exists>r \<in> set ?E. inode r = INTEGER 1 \<or>
                     (parent_inode r = INTEGER 1 \<and> name r = TEXT ''/'')"
  have e: "entries_of file' = (if ?conflict then ?E else ?E @ [root_row])"
    using h create_root [of fcinfo "file" file'] by simp
  have free: "\<forall>r \<in> set ?E. is_root r \<or> \<not> (inode r = INTEGER 1 \<or>
                 (parent_inode r = INTEGER 1 \<and> name r = TEXT ''/''))"
    using h by (simp add: root_places_free_def list_all_iff)
  have rr: "is_root root_row" by (simp add: is_root_def root_row_def column_defs)
  have none: "filter is_root ?E = []" if "\<not> ?conflict"
    using that by (auto simp: filter_empty_conv is_root_def)
  have some: "filter is_root ?E \<noteq> []" if "?conflict"
    using that free by (auto simp: filter_empty_conv)
  show ne: "root_entries file' \<noteq> []"
    using e rr some by (auto simp: root_entries_def)
  show "root_entries file' = [root_row]" if "root_entries file = []"
    using that e rr some none by (auto simp: root_entries_def)
  show "root_entries file' = root_entries file" if "root_entries file \<noteq> []"
    using that e none by (auto simp: root_entries_def)
  show "length (root_entries file') = 1" if d: "length (root_entries file) \<le> 1"
  proof (cases ?conflict)
    case True
    then have "root_entries file' = root_entries file" using e by (simp add: root_entries_def)
    then show ?thesis using ne d by (cases "root_entries file") auto
  next
    case False
    then show ?thesis using e rr none by (simp add: root_entries_def)
  qed
next
  assume one: "length (root_entries file) = 1"
  then have "root_entries file \<noteq> []" by auto
  then obtain d t where d: "file = Some d" "entries d = Some t" "\<exists>r \<in> set t. inode r = INTEGER 1"
    using root_entries_present [of "file"] by blast
  {
    assume "pg_sqlite_fs_create fcinfo file = (res, file')"
    then show "root_entries file' = root_entries file"
      using create_keeps_entries [OF d(2,3), of fcinfo] d(1,2)
      by (simp add: root_entries_def) (simp add: entries_of_def)
  }
  {
    assume "pg_sqlite_fs_truncate_entries fcinfo file = (res, file')"
    then have "file' = Some (d\<lparr>entries := Some (filter (\<lambda>r. \<not> gt_1 (inode r)) t)\<rparr>)"
      using d(1,2) by (auto simp: truncate_entries_present)
    then show "root_entries file' = root_entries file"
      using d(1) root_entries_filter [of "\<lambda>r. \<not> gt_1 (inode r)" d t] d(2)
      by (simp add: is_root_def)
  }
  {
    assume h: "pg_sqlite_fs_delete_entry fcinfo file = Some (res, file') \<and> PG_GETARG_INT64 fcinfo 1 \<noteq> 1"
    let ?Q = "\<lambda>r. inode r \<noteq> INTEGER (PG_GETARG_INT64 fcinfo 1) \<and>
                  parent_inode r \<noteq> INTEGER (PG_GETARG_INT64 fcinfo 1)"
    have "file' = Some (d\<lparr>entries := Some (filter ?Q t)\<rparr>)"
      using h d(1,2) by (auto simp: delete_entry_present)
    then show "root_entries file' = root_entries file"
      using d(1) root_entries_filter [of ?Q d t] d(2) h
      by (simp add: is_root_def)
  }
  {
    assume h: "pg_sqlite_fs_delete_entry fcinfo file = Some (res, file') \<and> PG_GETARG_INT64 fcinfo 1 = 1"
    then show "res = PG_RETURN_BOOL True" using d(1,2) by (auto simp: delete_entry_present)
    from h show "root_entries file' = []"
      using d(1,2)
      by (auto simp: delete_entry_present root_entries_def entries_of_def is_root_def
          filter_empty_conv)
  }
qed

text \<open>Creating gives one root entry to an absent store, to the store from which inode 1 was
  deleted and to the empty file that an insert into an absent store leaves. The chain \<open>/\<close>,
  \<open>/a\<close>, \<open>/a/b\<close>, \<open>/a/b/c\<close> keeps its root through creating again, truncating and deleting
  \<open>/a\<close>, and loses it when inode 1 is deleted.\<close>

theorem root_entry_kept_witness:
  "pg_sqlite_fs_create [path_arg] None = (PG_RETURN_BOOL True, Some created) \<and>
   root_entries (Some created) = [root_row] \<and>
   pg_sqlite_fs_create [path_arg] (Some (created\<lparr>entries := Some []\<rparr>)) =
     (PG_RETURN_BOOL True, Some created) \<and>
   pg_sqlite_fs_create [path_arg] (Some empty_database) = (PG_RETURN_BOOL True, Some created) \<and>
   pg_sqlite_fs_create [path_arg] (Some tree) = (PG_RETURN_BOOL True, Some tree) \<and>
   length (root_entries (Some tree)) = 1 \<and>
   root_entries (snd (pg_sqlite_fs_truncate_entries [path_arg] (Some tree))) = [root_row] \<and>
   root_entries (snd (the (pg_sqlite_fs_delete_entry [path_arg, arg (ByVal 2)] (Some tree)))) = [root_row] \<and>
   root_entries (snd (the (pg_sqlite_fs_delete_entry [path_arg, arg (ByVal 1)] (Some tree)))) = []"
proof -
  have c: "pg_sqlite_fs_create [path_arg] None = (PG_RETURN_BOOL True, Some created)"
    by (simp add: create_absent arg_defs)
  have c1: "pg_sqlite_fs_create [path_arg] (Some (created\<lparr>entries := Some []\<rparr>)) =
     (PG_RETURN_BOOL True, Some created)"
    by code_simp
  have c2: "pg_sqlite_fs_create [path_arg] (Some empty_database) = (PG_RETURN_BOOL True, Some created)"
    by code_simp
  have c3: "pg_sqlite_fs_create [path_arg] (Some tree) = (PG_RETURN_BOOL True, Some tree)"
    by code_simp
  have free: "root_places_free None" "root_places_free (Some tree)"
    by (simp_all add: root_places_free_def entries_of_def tree_def created_def is_root_def
        root_row_def entry_row_def column_defs)
  have none: "root_entries None = []" by (simp add: root_entries_def entries_of_def)
  have most: "length (root_entries (Some tree)) \<le> 1"
    using root_entries_at_most_one [of "entries_of (Some tree)"]
    by (simp add: root_entries_def entries_of_def tree_def created_def root_row_def
        entry_row_def column_defs)
  have i2: "PG_GETARG_INT64 [path_arg, arg (ByVal 2)] 1 \<noteq> 1" by (simp add: arg_defs)
  have i1: "PG_GETARG_INT64 [path_arg, arg (ByVal 1)] 1 = 1" by (simp add: arg_defs)
  obtain r2 f2 where d2: "pg_sqlite_fs_delete_entry [path_arg, arg (ByVal 2)] (Some tree) = Some (r2, f2)"
    by (simp add: delete_entry_present tree_def)
  obtain r1 f1 where d1: "pg_sqlite_fs_delete_entry [path_arg, arg (ByVal 1)] (Some tree) = Some (r1, f1)"
    by (simp add: delete_entry_present tree_def)
  note k = root_entry_kept
  have r0: "root_entries (Some created) = [root_row]"
    using k [of "[path_arg]" None "Some created"] c free(1) none by simp
  have one: "length (root_entries (Some tree)) = 1"
    using k [of "[path_arg]" "Some tree" "Some tree"] c3 free(2) most by simp
  then have r: "root_entries (Some tree) = [root_row]"
    by (simp add: root_entries_def entries_of_def tree_def created_def is_root_def root_row_def
        entry_row_def column_defs)
  have "root_entries (snd (pg_sqlite_fs_truncate_entries [path_arg] (Some tree))) = [root_row]"
    using k [of "[path_arg]" "Some tree" "snd (pg_sqlite_fs_truncate_entries [path_arg] (Some tree))"
               "fst (pg_sqlite_fs_truncate_entries [path_arg] (Some tree))"] one r by simp
  moreover have "root_entries f2 = [root_row]"
    using k [of "[path_arg, arg (ByVal 2)]" "Some tree" f2 r2] one r d2 i2 by simp
  moreover have "root_entries f1 = []"
    using k [of "[path_arg, arg (ByVal 1)]" "Some tree" f1 r1] one d1 i1 by simp
  ultimately show ?thesis using c c1 c2 c3 r0 one d1 d2 by simp
qed

lemma create_moved:
  "exec_in_order \<lparr>disk = created\<lparr>entries := Some [entry_row 1 ''moved'' 7]\<rparr>, txn = None\<rparr> create_statements =
     (0, \<lparr>disk = created\<lparr>entries := Some [entry_row 1 ''moved'' 7]\<rparr>, txn = None\<rparr>)"
  by (simp add: create_statements_def current_def store_def sqlite_codes
      created_def entry_row_def column_defs)

text \<open>The claim as written fails twice. Deleting inode 1 from a store just created
  succeeds and leaves no root entry. And when an upsert has given inode 1 another name and
  parent, creating again succeeds without restoring the root entry.\<close>

theorem delete_entry_removes_root:
  "pg_sqlite_fs_create [path_arg] None = (PG_RETURN_BOOL True, Some created) \<and>
   root_entries (Some created) = [root_row] \<and>
   pg_sqlite_fs_delete_entry [path_arg, arg (ByVal 1)] (Some created) =
     Some (PG_RETURN_BOOL True, Some (created\<lparr>entries := Some []\<rparr>)) \<and>
   root_entries (Some (created\<lparr>entries := Some []\<rparr>)) = [] \<and>
   pg_sqlite_fs_insert_entry (entry_call 1 ''moved'' 7 0 0 1 0 True) (Some created) =
     (PG_RETURN_BOOL True, Some (created\<lparr>entries := Some [entry_row 1 ''moved'' 7]\<rparr>)) \<and>
   pg_sqlite_fs_create [path_arg] (Some (created\<lparr>entries := Some [entry_row 1 ''moved'' 7]\<rparr>)) =
     (PG_RETURN_BOOL True, Some (created\<lparr>entries := Some [entry_row 1 ''moved'' 7]\<rparr>)) \<and>
   root_entries (Some (created\<lparr>entries := Some [entry_row 1 ''moved'' 7]\<rparr>)) = []"
proof -
  have "pg_sqlite_fs_create [path_arg] (Some (created\<lparr>entries := Some [entry_row 1 ''moved'' 7]\<rparr>)) =
     (PG_RETURN_BOOL True, Some (created\<lparr>entries := Some [entry_row 1 ''moved'' 7]\<rparr>))"
    using create_moved
    by (simp add: pg_sqlite_fs_create_def sqlite3_open_def sqlite3_open_v2_def sqlite3_close_def
        arg_defs)
  moreover have "pg_sqlite_fs_delete_entry [path_arg, arg (ByVal 1)] (Some created) =
     Some (PG_RETURN_BOOL True, Some (created\<lparr>entries := Some []\<rparr>))"
  proof -
    have e: "entries created = Some [root_row]" by (simp add: created_def)
    show ?thesis
      by (simp add: delete_entry_present [OF e] arg_defs root_row_def column_defs)
  qed
  moreover have "pg_sqlite_fs_insert_entry (entry_call 1 ''moved'' 7 0 0 1 0 True) (Some created) =
     (PG_RETURN_BOOL True, Some (created\<lparr>entries := Some [entry_row 1 ''moved'' 7]\<rparr>))"
    by code_simp
  ultimately show ?thesis
    by (simp add: create_absent arg_defs root_entries_def entries_of_def
      created_def is_root_def root_row_def entry_row_def column_defs)
qed

section \<open>Operations on an absent store\<close>

lemma delete_absent:
  "pg_sqlite_fs_delete_file fcinfo None = (ERROR, None)"
  "pg_sqlite_fs_delete_entry fcinfo None = Some (ERROR, None)"
  by (simp_all add: pg_sqlite_fs_delete_file_def pg_sqlite_fs_delete_entry_def sqlite3_open_v2_def)

lemma insert_entry_absent:
  assumes "4 \<le> PG_NARGS fcinfo" and "\<not> PG_ARGISNULL fcinfo 0" and "\<not> PG_ARGISNULL fcinfo 1"
    and "\<not> PG_ARGISNULL fcinfo 2" and "\<not> PG_ARGISNULL fcinfo 3"
  shows "pg_sqlite_fs_insert_entry fcinfo None = (PG_RETURN_BOOL False, Some empty_database)"
  using assms
  by (simp add: pg_sqlite_fs_insert_entry_def sqlite3_open_def sqlite3_open_v2_def
      sqlite3_prepare_v2_def current_def empty_database_def sqlite_codes sqlite3_close_def)

lemma insert_file_absent:
  assumes "PG_NARGS fcinfo = 8" and "\<not> PG_ARGISNULL fcinfo 0" and "\<not> PG_ARGISNULL fcinfo 1"
  shows "pg_sqlite_fs_insert_file fcinfo None = (PG_RETURN_BOOL False, Some empty_database)"
  using assms
  by (simp add: pg_sqlite_fs_insert_file_def sqlite3_open_def sqlite3_open_v2_def
      sqlite3_prepare_v2_def current_def empty_database_def sqlite_codes sqlite3_close_def)

lemma bulk_absent:
  assumes "PG_NARGS fcinfo = 2" and "\<not> PG_ARGISNULL fcinfo 0" and "\<not> PG_ARGISNULL fcinfo 1"
  shows "pg_sqlite_fs_insert_entries fcinfo s None = (PG_RETURN_BOOL True, Some empty_database)"
    and "pg_sqlite_fs_insert_files fcinfo s None = (PG_RETURN_BOOL True, Some empty_database)"
  using assms
  by (simp_all add: pg_sqlite_fs_insert_entries_def pg_sqlite_fs_insert_files_def
      sqlite3_open_def sqlite3_open_v2_def close_transaction_def
      sqlite3_prepare_v2_def current_def empty_database_def sqlite_codes sqlite3_close_def)

lemma exec_absent:
  assumes "PG_NARGS fcinfo = 2" and "\<not> PG_ARGISNULL fcinfo 0" and "\<not> PG_ARGISNULL fcinfo 1"
  shows "snd (pg_sqlite_fs_exec fcinfo run None) =
           Some (disk (snd (run \<lparr>disk = empty_database, txn = None\<rparr>)))"
  using assms
  by (simp add: pg_sqlite_fs_exec_def sqlite3_open_def sqlite3_open_v2_def sqlite3_close_def
      case_prod_beta)

text \<open>
  C3, as amended. On an absent store, \<open>pg_sqlite_fs_delete_file\<close>,
  \<open>pg_sqlite_fs_delete_entry\<close> and the three truncations, which open the file without the
  create flag, end with the error raised on the failed open and leave the store absent,
  and \<open>pg_sqlite_fs_remove\<close> leaves it absent. \<open>pg_sqlite_fs_insert_entry\<close>,
  \<open>pg_sqlite_fs_insert_file\<close>, the two bulk loaders and \<open>pg_sqlite_fs_exec\<close> open it with
  the create flag: when their arguments pass the argument checks, the store is present
  afterwards. For the two single-row inserts and the loaders it is the empty database,
  with no table, and the single-row inserts return false.
\<close>

theorem absent_store:
  "pg_sqlite_fs_delete_file fcinfo None = (ERROR, None) \<and>
   pg_sqlite_fs_delete_entry fcinfo None = Some (ERROR, None) \<and>
   pg_sqlite_fs_truncate_entries fcinfo None = (ERROR, None) \<and>
   pg_sqlite_fs_truncate_files fcinfo None = (ERROR, None) \<and>
   pg_sqlite_fs_truncate_attributes fcinfo None = (ERROR, None) \<and>
   snd (pg_sqlite_fs_remove fcinfo None) = None \<and>
   (4 \<le> PG_NARGS fcinfo \<and> \<not> PG_ARGISNULL fcinfo 0 \<and> \<not> PG_ARGISNULL fcinfo 1 \<and>
    \<not> PG_ARGISNULL fcinfo 2 \<and> \<not> PG_ARGISNULL fcinfo 3 \<longrightarrow>
      pg_sqlite_fs_insert_entry fcinfo None = (PG_RETURN_BOOL False, Some empty_database)) \<and>
   (PG_NARGS fcinfo = 8 \<and> \<not> PG_ARGISNULL fcinfo 0 \<and> \<not> PG_ARGISNULL fcinfo 1 \<longrightarrow>
      pg_sqlite_fs_insert_file fcinfo None = (PG_RETURN_BOOL False, Some empty_database)) \<and>
   (PG_NARGS fcinfo = 2 \<and> \<not> PG_ARGISNULL fcinfo 0 \<and> \<not> PG_ARGISNULL fcinfo 1 \<longrightarrow>
      snd (pg_sqlite_fs_insert_entries fcinfo s None) = Some empty_database \<and>
      snd (pg_sqlite_fs_insert_files fcinfo s None) = Some empty_database \<and>
      snd (pg_sqlite_fs_exec fcinfo run None) =
        Some (disk (snd (run \<lparr>disk = empty_database, txn = None\<rparr>))))"
  by (simp add: delete_absent insert_entry_absent insert_file_absent bulk_absent exec_absent
      pg_sqlite_fs_truncate_entries_def pg_sqlite_fs_truncate_files_def
      pg_sqlite_fs_truncate_attributes_def truncate_table_absent pg_sqlite_fs_remove_def)

text \<open>Each of the five operations that create the file, on an absent store.\<close>

theorem absent_store_witness:
  "pg_sqlite_fs_insert_entry entry_args None = (PG_RETURN_BOOL False, Some empty_database) \<and>
   pg_sqlite_fs_insert_file file_args None = (PG_RETURN_BOOL False, Some empty_database) \<and>
   snd (pg_sqlite_fs_insert_entries [path_arg, query_arg]
          (selected \<lparr>tupdesc = columns [], vals = []\<rparr>) None) = Some empty_database \<and>
   snd (pg_sqlite_fs_insert_files [path_arg, query_arg]
          (selected \<lparr>tupdesc = columns [], vals = []\<rparr>) None) = Some empty_database \<and>
   snd (pg_sqlite_fs_exec [path_arg, query_arg]
          (\<lambda>db. sqlite3_exec db CREATE_TABLE_IF_NOT_EXISTS_files) None) =
     Some (empty_database\<lparr>files := Some []\<rparr>)"
proof -
  let ?s = "selected \<lparr>tupdesc = columns [], vals = []\<rparr>"
  let ?run = "\<lambda>db. sqlite3_exec db CREATE_TABLE_IF_NOT_EXISTS_files"
  have e: "4 \<le> PG_NARGS entry_args \<and> \<not> PG_ARGISNULL entry_args 0 \<and> \<not> PG_ARGISNULL entry_args 1 \<and>
           \<not> PG_ARGISNULL entry_args 2 \<and> \<not> PG_ARGISNULL entry_args 3"
    by (simp add: entry_args_def arg_defs)
  have f: "PG_NARGS file_args = 8 \<and> \<not> PG_ARGISNULL file_args 0 \<and> \<not> PG_ARGISNULL file_args 1"
    by (simp add: file_args_def arg_defs)
  have q: "PG_NARGS [path_arg, query_arg] = 2 \<and> \<not> PG_ARGISNULL [path_arg, query_arg] 0 \<and>
           \<not> PG_ARGISNULL [path_arg, query_arg] 1"
    by (simp add: arg_defs)
  have r: "disk (snd (?run \<lparr>disk = empty_database, txn = None\<rparr>)) = empty_database\<lparr>files := Some []\<rparr>"
    by (simp add: empty_database_def current_def store_def)
  from absent_store [of entry_args ?s ?run] e
  have "pg_sqlite_fs_insert_entry entry_args None = (PG_RETURN_BOOL False, Some empty_database)"
    by blast
  moreover from absent_store [of file_args ?s ?run] f
  have "pg_sqlite_fs_insert_file file_args None = (PG_RETURN_BOOL False, Some empty_database)"
    by blast
  moreover from absent_store [of "[path_arg, query_arg]" ?s ?run] q
  have "snd (pg_sqlite_fs_insert_entries [path_arg, query_arg] ?s None) = Some empty_database \<and>
        snd (pg_sqlite_fs_insert_files [path_arg, query_arg] ?s None) = Some empty_database \<and>
        snd (pg_sqlite_fs_exec [path_arg, query_arg] ?run None) =
          Some (disk (snd (?run \<lparr>disk = empty_database, txn = None\<rparr>)))"
    by blast
  ultimately show ?thesis using r by simp
qed

text \<open>The claim as written fails for \<open>pg_sqlite_fs_insert_entry\<close>: on an absent store it
  returns false, and the store is present afterwards.\<close>

theorem insert_entry_creates_file:
  "pg_sqlite_fs_insert_entry entry_args None = (PG_RETURN_BOOL False, Some empty_database)"
  by (simp add: insert_entry_absent entry_args_def arg_defs)

section \<open>Inserting an entry\<close>

lemma prepare_present:
  assumes "table_of q (current db) = Some t"
  shows "sqlite3_prepare_v2 db q =
           (SQLITE_OK, Some \<lparr>sql_text = q, bound = replicate (parameter_count q) NULL\<rparr>)"
  using assms by (simp add: sqlite3_prepare_v2_def)

lemma bind_chain_8:
  assumes "length (bound st) = 8"
  shows "bind_chain (Some st) [(Suc 0, v1), (2, v2), (3, v3), (4, v4), (5, v5), (6, v6), (7, v7), (8, v8)] =
           (0, Some (st\<lparr>bound := [v1, v2, v3, v4, v5, v6, v7, v8]\<rparr>))"
proof -
  obtain a b c d e f g h where "bound st = [a, b, c, d, e, f, g, h]"
    using assms by (auto simp: length_Suc_conv eval_nat_numeral)
  then show ?thesis by (simp add: sqlite3_bind_def sqlite_codes)
qed

lemma upsert_entries_Inl: "upsert_entries nn u new t = Inl rc \<Longrightarrow> rc = SQLITE_CONSTRAINT"
  by (auto simp: upsert_entries_def split: if_splits)

lemma step_insert_entries:
  assumes "entries (current db) = Some t"
  shows "sqlite3_step db (Some \<lparr>sql_text = INSERT_INTO_entries, bound = new\<rparr>) =
     (case upsert_entries entries_not_null (names (current db)) new t of
        Inl rc \<Rightarrow> (SQLITE_CONSTRAINT, db)
      | Inr t' \<Rightarrow> (SQLITE_DONE, store db ((current db)\<lparr>entries := Some t'\<rparr>)))"
  using assms by (auto simp: sqlite3_step_def split: sum.splits dest: upsert_entries_Inl)

lemma insert_entry_step:
  assumes "entries d = Some t" and "4 \<le> PG_NARGS fcinfo" and "\<not> PG_ARGISNULL fcinfo 0"
    and "\<not> PG_ARGISNULL fcinfo 1" and "\<not> PG_ARGISNULL fcinfo 2" and "\<not> PG_ARGISNULL fcinfo 3"
  shows "pg_sqlite_fs_insert_entry fcinfo (Some d) =
     (case upsert_entries entries_not_null (names d)
             [INTEGER (PG_GETARG_INT64 fcinfo 1), TEXT (PG_GETARG_TEXT_PP fcinfo 2),
              INTEGER (PG_GETARG_INT64 fcinfo 3), INTEGER (PG_GETARG_INT64 fcinfo 4),
              INTEGER (PG_GETARG_INT64 fcinfo 5), INTEGER (PG_GETARG_INT64 fcinfo 6),
              INTEGER (PG_GETARG_INT64 fcinfo 7),
              INTEGER (scast (if PG_GETARG_BOOL fcinfo 8 then 1 else 0 :: int32))] t of
        Inl rc \<Rightarrow> (PG_RETURN_BOOL False, Some d)
      | Inr t' \<Rightarrow> (PG_RETURN_BOOL True, Some (d\<lparr>entries := Some t'\<rparr>)))"
proof -
  let ?db = "\<lparr>disk = d, txn = None\<rparr>"
  have c: "entries (current ?db) = Some t" "names (current ?db) = names d"
    using assms(1) by (simp_all add: current_def)
  have p: "sqlite3_prepare_v2 ?db INSERT_INTO_entries =
             (SQLITE_OK, Some \<lparr>sql_text = INSERT_INTO_entries, bound = replicate 8 NULL\<rparr>)"
    using c by (simp add: prepare_present)
  show ?thesis
    using assms(2-)
    by (simp add: pg_sqlite_fs_insert_entry_def sqlite3_open_def sqlite3_open_v2_def p
        bind_chain_8 step_insert_entries [OF c(1)] c(2) sqlite_codes store_def sqlite3_close_def
        sqlite3_bind_int64_def sqlite3_bind_int_def sqlite3_bind_text_def Let_def current_def
        del: bind_chain.simps split del: if_split split: sum.splits)
qed

lemma insert_entry_present:
  assumes "entries d = Some t"
  shows "pg_sqlite_fs_insert_entry (entry_call i n p c m l s dir) (Some d) =
     (case upsert_entries entries_not_null (names d)
             [INTEGER i, TEXT n, INTEGER p, INTEGER c, INTEGER m, INTEGER l, INTEGER s,
              INTEGER (if dir then 1 else 0)] t of
        Inl rc \<Rightarrow> (PG_RETURN_BOOL False, Some d)
      | Inr t' \<Rightarrow> (PG_RETURN_BOOL True, Some (d\<lparr>entries := Some t'\<rparr>)))"
proof -
  have a: "4 \<le> PG_NARGS (entry_call i n p c m l s dir)"
    "\<not> PG_ARGISNULL (entry_call i n p c m l s dir) 0"
    "\<not> PG_ARGISNULL (entry_call i n p c m l s dir) 1"
    "\<not> PG_ARGISNULL (entry_call i n p c m l s dir) 2"
    "\<not> PG_ARGISNULL (entry_call i n p c m l s dir) 3"
    by (simp_all add: entry_call_def arg_defs)
  have v: "PG_GETARG_INT64 (entry_call i n p c m l s dir) 1 = i"
    "PG_GETARG_TEXT_PP (entry_call i n p c m l s dir) 2 = n"
    "PG_GETARG_INT64 (entry_call i n p c m l s dir) 3 = p"
    "PG_GETARG_INT64 (entry_call i n p c m l s dir) 4 = c"
    "PG_GETARG_INT64 (entry_call i n p c m l s dir) 5 = m"
    "PG_GETARG_INT64 (entry_call i n p c m l s dir) 6 = l"
    "PG_GETARG_INT64 (entry_call i n p c m l s dir) 7 = s"
    "PG_GETARG_BOOL (entry_call i n p c m l s dir) 8 = dir"
    by (simp_all add: entry_call_def arg_defs Int64GetDatum_def BoolGetDatum_def)
  have b: "(scast (if dir then 1 else 0 :: int32) :: int64) = (if dir then 1 else 0)"
    by simp
  show ?thesis
    unfolding insert_entry_step [OF assms a] v b ..
qed


lemma upsert_entries_select:
  assumes "upsert_entries nn u new t = Inr t'"
  shows "set (filter (\<lambda>r. inode r = inode new) t') = {new}"
    and "distinct (map inode t) \<Longrightarrow> filter (\<lambda>r. inode r = inode new) t' = [new]"
proof -
  let ?k = "inode new"
  let ?f = "\<lambda>r. if inode r = ?k then new else r"
  have t': "t' = (if \<exists>r \<in> set t. inode r = ?k then map ?f t else t @ [new])"
    using assms by (auto simp: upsert_entries_def split: if_splits)
  have m: "filter (\<lambda>r. inode r = ?k) (map ?f xs) = replicate (length (filter (\<lambda>r. inode r = ?k) xs)) new" for xs
    by (induction xs) auto
  have n: "\<not> (\<exists>r \<in> set xs. inode r = ?k) \<Longrightarrow> filter (\<lambda>r. inode r = ?k) xs = []" for xs
    by (induction xs) auto
  have one: "distinct (map inode xs) \<Longrightarrow> \<exists>r \<in> set xs. inode r = ?k \<Longrightarrow>
             length (filter (\<lambda>r. inode r = ?k) xs) = 1" for xs
  proof (induction xs)
    case Nil
    then show ?case by simp
  next
    case (Cons x xs)
    show ?case
    proof (cases "inode x = ?k")
      case True
      then have "\<not> (\<exists>r \<in> set xs. inode r = ?k)" using Cons.prems(1) by (auto simp: image_iff)
      then show ?thesis using True n [of xs] by simp
    next
      case False
      then show ?thesis using Cons by auto
    qed
  qed
  show "set (filter (\<lambda>r. inode r = ?k) t') = {new}"
  proof (cases "\<exists>r \<in> set t. inode r = ?k")
    case True
    then have "filter (\<lambda>r. inode r = ?k) t \<noteq> []" by (auto simp: filter_empty_conv)
    then have "0 < length (filter (\<lambda>r. inode r = ?k) t)" by simp
    then show ?thesis using True t' m [of t] by (auto simp del: length_greater_0_conv)
  next
    case False
    then show ?thesis using t' n [of t] by simp
  qed
  show "filter (\<lambda>r. inode r = ?k) t' = [new]" if d: "distinct (map inode t)"
  proof (cases "\<exists>r \<in> set t. inode r = ?k")
    case True
    then show ?thesis using t' m [of t] one [OF d True] by simp
  next
    case False
    then show ?thesis using t' n [of t] by simp
  qed
qed


lemma bind_4_of_9:
  "sqlite3_bind (Some \<lparr>sql_text = q, bound = replicate 9 NULL\<rparr>) 4 v =
     (0, Some \<lparr>sql_text = q, bound = [NULL, NULL, NULL, v, NULL, NULL, NULL, NULL, NULL]\<rparr>)"
  by (simp add: sqlite3_bind_def sqlite_codes eval_nat_numeral)

lemma bind_chain_rest_of_9:
  "bind_chain (Some \<lparr>sql_text = q, bound = [a, b, c, d, e, f, g, h, i]\<rparr>)
     [(Suc 0, v1), (2, v2), (3, v3), (5, v5), (6, v6), (7, v7), (8, v8), (9, v9)] =
     (0, Some \<lparr>sql_text = q, bound = [v1, v2, v3, d, v5, v6, v7, v8, v9]\<rparr>)"
  by (simp add: sqlite3_bind_def sqlite_codes)

lemma step_insert_entries_decrypted_size:
  assumes "entries (current db) = Some t"
  shows "sqlite3_step db (Some \<lparr>sql_text = INSERT_INTO_entries_decrypted_size, bound = new\<rparr>) =
     (case upsert_entries entries_decrypted_size_not_null (names (current db))
             (decrypted_size_row new) t of
        Inl rc \<Rightarrow> (SQLITE_CONSTRAINT, db)
      | Inr t' \<Rightarrow> (SQLITE_DONE, store db ((current db)\<lparr>entries := Some t'\<rparr>)))"
  using assms by (auto simp: sqlite3_step_def split: sum.splits dest: upsert_entries_Inl)

lemma insert_entry_decrypted_size_step:
  assumes "entries d = Some t" and "4 \<le> PG_NARGS fcinfo" and "\<not> PG_ARGISNULL fcinfo 0"
    and "\<not> PG_ARGISNULL fcinfo 1" and "\<not> PG_ARGISNULL fcinfo 2" and "\<not> PG_ARGISNULL fcinfo 3"
  shows "pg_sqlite_fs_insert_entry_decrypted_size fcinfo (Some d) =
     (case upsert_entries entries_decrypted_size_not_null (names d)
             [INTEGER (PG_GETARG_INT64 fcinfo 1), TEXT (PG_GETARG_TEXT_PP fcinfo 2),
              INTEGER (PG_GETARG_INT64 fcinfo 3), INTEGER (PG_GETARG_INT64 fcinfo 5),
              INTEGER (PG_GETARG_INT64 fcinfo 6), INTEGER (PG_GETARG_INT64 fcinfo 7),
              INTEGER (PG_GETARG_INT64 fcinfo 8),
              (if PG_ARGISNULL fcinfo 4 then sqlite3_bind_null
               else sqlite3_bind_text (PG_GETARG_TEXT_PP fcinfo 4)),
              INTEGER (scast (if PG_GETARG_BOOL fcinfo 9 then 1 else 0 :: int32))] t of
        Inl rc \<Rightarrow> (PG_RETURN_BOOL False, Some d)
      | Inr t' \<Rightarrow> (PG_RETURN_BOOL True, Some (d\<lparr>entries := Some t'\<rparr>)))"
proof -
  let ?db = "\<lparr>disk = d, txn = None\<rparr>"
  have c: "entries (current ?db) = Some t" "names (current ?db) = names d"
    using assms(1) by (simp_all add: current_def)
  have p: "sqlite3_prepare_v2 ?db INSERT_INTO_entries_decrypted_size =
             (SQLITE_OK, Some \<lparr>sql_text = INSERT_INTO_entries_decrypted_size,
                               bound = replicate 9 NULL\<rparr>)"
    using c by (simp add: prepare_present)
  show ?thesis
    using assms(2-)
    by (simp add: pg_sqlite_fs_insert_entry_decrypted_size_def sqlite3_open_def
        sqlite3_open_v2_def p bind_4_of_9 bind_chain_rest_of_9
        bind_chain_rest_of_9 [folded One_nat_def] step_insert_entries_decrypted_size [OF c(1)]
        c(2) sqlite_codes store_def sqlite3_close_def decrypted_size_row_def
        sqlite3_bind_int64_def sqlite3_bind_int_def sqlite3_bind_text_def sqlite3_bind_null_def
        Let_def current_def
        del: bind_chain.simps split del: if_split split: sum.splits)
qed

lemma insert_entry_decrypted_size_present:
  assumes "entries d = Some t"
  shows "pg_sqlite_fs_insert_entry_decrypted_size (entry_call_decrypted_size i n p ds c m l s dir) (Some d) =
     (case upsert_entries entries_decrypted_size_not_null (names d)
             [INTEGER i, TEXT n, INTEGER p, INTEGER c, INTEGER m, INTEGER l, INTEGER s,
              (case ds of None \<Rightarrow> NULL | Some x \<Rightarrow> TEXT x),
              INTEGER (if dir then 1 else 0)] t of
        Inl rc \<Rightarrow> (PG_RETURN_BOOL False, Some d)
      | Inr t' \<Rightarrow> (PG_RETURN_BOOL True, Some (d\<lparr>entries := Some t'\<rparr>)))"
proof -
  let ?a = "entry_call_decrypted_size i n p ds c m l s dir"
  have a: "4 \<le> PG_NARGS ?a" "\<not> PG_ARGISNULL ?a 0" "\<not> PG_ARGISNULL ?a 1"
    "\<not> PG_ARGISNULL ?a 2" "\<not> PG_ARGISNULL ?a 3"
    by (simp_all add: entry_call_decrypted_size_def arg_defs)
  have v: "PG_GETARG_INT64 ?a 1 = i" "PG_GETARG_TEXT_PP ?a 2 = n" "PG_GETARG_INT64 ?a 3 = p"
    "PG_GETARG_INT64 ?a 5 = c" "PG_GETARG_INT64 ?a 6 = m" "PG_GETARG_INT64 ?a 7 = l"
    "PG_GETARG_INT64 ?a 8 = s" "PG_GETARG_BOOL ?a 9 = dir"
    by (simp_all add: entry_call_decrypted_size_def arg_defs Int64GetDatum_def BoolGetDatum_def)
  have w: "(if PG_ARGISNULL ?a 4 then sqlite3_bind_null
            else sqlite3_bind_text (PG_GETARG_TEXT_PP ?a 4)) =
             (case ds of None \<Rightarrow> NULL | Some x \<Rightarrow> TEXT x)"
    by (cases ds)
      (simp_all add: entry_call_decrypted_size_def arg_defs sqlite3_bind_null_def
        sqlite3_bind_text_def)
  have b: "(scast (if dir then 1 else 0 :: int32) :: int64) = (if dir then 1 else 0)"
    by simp
  show ?thesis
    unfolding insert_entry_decrypted_size_step [OF assms a] v w b ..
qed

lemma insert_entry_success_present:
  assumes "pg_sqlite_fs_insert_entry (entry_call i n p c m l s dir) file = (PG_RETURN_BOOL True, file')"
  shows "\<exists>d t. file = Some d \<and> entries d = Some t"
proof (cases "file")
  case None
  then show ?thesis
    using assms insert_entry_absent [of "entry_call i n p c m l s dir"]
    by (simp add: entry_call_def arg_defs)
next
  case (Some d)
  show ?thesis
  proof (cases "entries d")
    case None
    then show ?thesis using assms Some
      by (simp add: pg_sqlite_fs_insert_entry_def entry_call_def arg_defs sqlite3_open_def
          sqlite3_open_v2_def sqlite3_prepare_v2_def current_def sqlite_codes)
  next
    case (Some t)
    then show ?thesis using \<open>file = Some d\<close> by simp
  qed
qed

lemma insert_entry_decrypted_size_success_present:
  assumes "pg_sqlite_fs_insert_entry_decrypted_size (entry_call_decrypted_size i n p ds c m l s dir) file =
             (PG_RETURN_BOOL True, file')"
  shows "\<exists>d t. file = Some d \<and> entries d = Some t"
proof (cases "file")
  case None
  then show ?thesis
    using assms
    by (simp add: pg_sqlite_fs_insert_entry_decrypted_size_def entry_call_decrypted_size_def
        arg_defs sqlite3_open_def sqlite3_open_v2_def sqlite3_prepare_v2_def current_def
        empty_database_def sqlite_codes)
next
  case (Some d)
  show ?thesis
  proof (cases "entries d")
    case None
    then show ?thesis using assms Some
      by (simp add: pg_sqlite_fs_insert_entry_decrypted_size_def entry_call_decrypted_size_def
          arg_defs sqlite3_open_def sqlite3_open_v2_def sqlite3_prepare_v2_def current_def
          sqlite_codes)
  next
    case (Some t)
    then show ?thesis using \<open>file = Some d\<close> by simp
  qed
qed

lemma select_after_upsert:
  assumes "upsert_entries nn u new t = Inr t'" and "inode new = INTEGER i" and "entries d = Some t"
  shows "set (select_entries_by_inode (Some (d\<lparr>entries := Some t'\<rparr>)) i) = {new} \<and>
         (distinct (map inode (entries_of (Some d))) \<longrightarrow>
            select_entries_by_inode (Some (d\<lparr>entries := Some t'\<rparr>)) i = [new])"
  using upsert_entries_select [OF assms(1)] assms(2,3)
  by (simp add: select_entries_by_inode_def entries_of_def)

text \<open>
  C9. A successful \<open>pg_sqlite_fs_insert_entry\<close> for an entry with the fields inode, name,
  parent_inode, ctime, mtime, nlink, size and is_dir, followed by a read of the entries with
  that inode, returns the row of exactly those fields (is_dir as 1 or 0) and no other row;
  on a store whose inodes are unique, as the primary key has it, it returns that row once.
  The same holds for src/pg_sqlite_fs.c's variant, whose entries carry the optional
  decrypted_size: the row read back has the text supplied, or NULL when none was.
\<close>

theorem insert_entry_read_back:
  "(pg_sqlite_fs_insert_entry (entry_call i n p c m l s dir) file = (PG_RETURN_BOOL True, file') \<longrightarrow>
      set (select_entries_by_inode file' i) =
        {[INTEGER i, TEXT n, INTEGER p, INTEGER c, INTEGER m, INTEGER l, INTEGER s,
          INTEGER (if dir then 1 else 0)]} \<and>
      (distinct (map inode (entries_of file)) \<longrightarrow>
         select_entries_by_inode file' i =
           [[INTEGER i, TEXT n, INTEGER p, INTEGER c, INTEGER m, INTEGER l, INTEGER s,
             INTEGER (if dir then 1 else 0)]])) \<and>
   (pg_sqlite_fs_insert_entry_decrypted_size (entry_call_decrypted_size i n p ds c m l s dir) file =
      (PG_RETURN_BOOL True, file') \<longrightarrow>
      set (select_entries_by_inode file' i) =
        {[INTEGER i, TEXT n, INTEGER p, INTEGER c, INTEGER m, INTEGER l, INTEGER s,
          (case ds of None \<Rightarrow> NULL | Some x \<Rightarrow> TEXT x), INTEGER (if dir then 1 else 0)]} \<and>
      (distinct (map inode (entries_of file)) \<longrightarrow>
         select_entries_by_inode file' i =
           [[INTEGER i, TEXT n, INTEGER p, INTEGER c, INTEGER m, INTEGER l, INTEGER s,
             (case ds of None \<Rightarrow> NULL | Some x \<Rightarrow> TEXT x), INTEGER (if dir then 1 else 0)]]))"
proof (intro conjI impI)
  let ?new = "[INTEGER i, TEXT n, INTEGER p, INTEGER c, INTEGER m, INTEGER l, INTEGER s,
               INTEGER (if dir then 1 else 0)]"
  assume ok: "pg_sqlite_fs_insert_entry (entry_call i n p c m l s dir) file = (PG_RETURN_BOOL True, file')"
  then obtain d t where d: "file = Some d" "entries d = Some t"
    using insert_entry_success_present by blast
  from ok d obtain t' where t': "upsert_entries entries_not_null (names d) ?new t = Inr t'"
      "file' = Some (d\<lparr>entries := Some t'\<rparr>)"
    by (auto simp: insert_entry_present [OF d(2)] split: sum.splits)
  have k: "inode ?new = INTEGER i" by (simp add: inode_def)
  from select_after_upsert [OF t'(1) k d(2)] t'(2) d(1)
  show "set (select_entries_by_inode file' i) = {?new}" by simp
  assume "distinct (map inode (entries_of file))"
  with select_after_upsert [OF t'(1) k d(2)] t'(2) d(1)
  show "select_entries_by_inode file' i = [?new]" by simp
next
  let ?new = "[INTEGER i, TEXT n, INTEGER p, INTEGER c, INTEGER m, INTEGER l, INTEGER s,
               (case ds of None \<Rightarrow> NULL | Some x \<Rightarrow> TEXT x), INTEGER (if dir then 1 else 0)]"
  assume ok: "pg_sqlite_fs_insert_entry_decrypted_size (entry_call_decrypted_size i n p ds c m l s dir) file =
                (PG_RETURN_BOOL True, file')"
  then obtain d t where d: "file = Some d" "entries d = Some t"
    using insert_entry_decrypted_size_success_present by blast
  from ok d obtain t' where t':
      "upsert_entries entries_decrypted_size_not_null (names d) ?new t = Inr t'"
      "file' = Some (d\<lparr>entries := Some t'\<rparr>)"
    by (auto simp: insert_entry_decrypted_size_present [OF d(2)] split: sum.splits)
  have k: "inode ?new = INTEGER i" by (simp add: inode_def)
  from select_after_upsert [OF t'(1) k d(2)] t'(2) d(1)
  show "set (select_entries_by_inode file' i) = {?new}" by simp
  assume "distinct (map inode (entries_of file))"
  with select_after_upsert [OF t'(1) k d(2)] t'(2) d(1)
  show "select_entries_by_inode file' i = [?new]" by simp
qed

text \<open>
  C6. On a store with the unique index \<open>names\<close> that \<open>pg_sqlite_fs_create\<close> makes, when an
  entry \<open>r\<close> of another inode has the parent_inode and the name of the entry to insert,
  the statement fails with SQLITE_CONSTRAINT, \<open>pg_sqlite_fs_insert_entry\<close> returns false
  and the store is as it was.
\<close>

theorem insert_entry_name_taken:
  assumes "entries d = Some t" and "names d" and "r \<in> set t" and "inode r \<noteq> INTEGER i"
    and "parent_inode r = INTEGER p" and "name r = TEXT n"
  shows "pg_sqlite_fs_insert_entry (entry_call i n p c m l s dir) (Some d) =
           (PG_RETURN_BOOL False, Some d) \<and>
         sqlite3_step \<lparr>disk = d, txn = None\<rparr>
           (Some \<lparr>sql_text = INSERT_INTO_entries,
                  bound = [INTEGER i, TEXT n, INTEGER p, INTEGER c, INTEGER m, INTEGER l,
                           INTEGER s, INTEGER (if dir then 1 else 0)]\<rparr>) =
           (SQLITE_CONSTRAINT, \<lparr>disk = d, txn = None\<rparr>)"
proof -
  let ?new = "[INTEGER i, TEXT n, INTEGER p, INTEGER c, INTEGER m, INTEGER l, INTEGER s,
               INTEGER (if dir then 1 else 0)]"
  have "\<exists>r \<in> set t. inode r \<noteq> inode ?new \<and> parent_inode r = parent_inode ?new \<and> name r = name ?new"
    using assms(3-) by (auto simp: column_defs)
  then have u: "upsert_entries entries_not_null (names d) ?new t = Inl SQLITE_CONSTRAINT"
    using assms(2) by (simp add: upsert_entries_def)
  have c: "entries (current \<lparr>disk = d, txn = None\<rparr>) = Some t"
    using assms(1) by (simp add: current_def)
  show ?thesis
    using u by (simp add: insert_entry_present [OF assms(1)] step_insert_entries [OF c] current_def)
qed


text \<open>A second entry named \<open>/\<close> under inode 1, on a store just created.\<close>

theorem insert_entry_name_taken_witness:
  "pg_sqlite_fs_insert_entry (entry_call 2 ''/'' 1 10 20 1 0 True) (Some created) =
     (PG_RETURN_BOOL False, Some created) \<and>
   sqlite3_step \<lparr>disk = created, txn = None\<rparr>
     (Some \<lparr>sql_text = INSERT_INTO_entries,
            bound = [INTEGER 2, TEXT ''/'', INTEGER 1, INTEGER 10, INTEGER 20, INTEGER 1,
                     INTEGER 0, INTEGER 1]\<rparr>) =
     (SQLITE_CONSTRAINT, \<lparr>disk = created, txn = None\<rparr>)"
proof -
  have h: "entries created = Some [root_row]" "names created" "root_row \<in> set [root_row]"
    "inode root_row \<noteq> INTEGER 2" "parent_inode root_row = INTEGER 1" "name root_row = TEXT ''/''"
    by (simp_all add: created_def root_row_def column_defs)
  from insert_entry_name_taken [OF h, of 10 20 1 0 True] show ?thesis by simp
qed

text \<open>A directory \<open>a\<close> inserted under the root and read back; for the older schema a file
  with decrypted_size 4096.\<close>

theorem insert_entry_read_back_witness:
  "select_entries_by_inode
     (snd (pg_sqlite_fs_insert_entry (entry_call 2 ''a'' 1 10 20 1 0 True) (Some created))) 2 =
     [[INTEGER 2, TEXT ''a'', INTEGER 1, INTEGER 10, INTEGER 20, INTEGER 1, INTEGER 0, INTEGER 1]] \<and>
   select_entries_by_inode
     (snd (pg_sqlite_fs_insert_entry_decrypted_size
             (entry_call_decrypted_size 2 ''f'' 1 (Some ''4096'') 10 20 1 4124 False)
             (Some created_decrypted_size))) 2 =
     [[INTEGER 2, TEXT ''f'', INTEGER 1, INTEGER 10, INTEGER 20, INTEGER 1, INTEGER 4124,
       TEXT ''4096'', INTEGER 0]]"
proof -
  have e: "entries created = Some [root_row]" by (simp add: created_def)
  obtain f where r: "pg_sqlite_fs_insert_entry (entry_call 2 ''a'' 1 10 20 1 0 True) (Some created) =
                       (PG_RETURN_BOOL True, f)"
  proof -
    have "upsert_entries entries_not_null (names created)
            [INTEGER 2, TEXT ''a'', INTEGER 1, INTEGER 10, INTEGER 20, INTEGER 1, INTEGER 0,
             INTEGER (if True then 1 else 0)] [root_row] =
          Inr [root_row, [INTEGER 2, TEXT ''a'', INTEGER 1, INTEGER 10, INTEGER 20, INTEGER 1,
                          INTEGER 0, INTEGER 1]]"
      by (simp add: upsert_entries_def entries_not_null_def root_row_def column_defs created_def)
    then show ?thesis using that by (simp add: insert_entry_present [OF e])
  qed
  have d: "distinct (map inode (entries_of (Some created)))"
    by (simp add: entries_of_def created_def)
  let ?root = "[INTEGER 1, TEXT ''/'', INTEGER 1, INTEGER 0, INTEGER 0, INTEGER 1, INTEGER 0, NULL,
                INTEGER 1]"
  have e': "entries created_decrypted_size = Some [?root]"
    by (simp add: created_decrypted_size_def)
  obtain f' where r': "pg_sqlite_fs_insert_entry_decrypted_size
                         (entry_call_decrypted_size 2 ''f'' 1 (Some ''4096'') 10 20 1 4124 False)
                         (Some created_decrypted_size) = (PG_RETURN_BOOL True, f')"
  proof -
    have "upsert_entries entries_decrypted_size_not_null (names created_decrypted_size)
            [INTEGER 2, TEXT ''f'', INTEGER 1, INTEGER 10, INTEGER 20, INTEGER 1, INTEGER 4124,
             (case Some ''4096'' of None \<Rightarrow> NULL | Some x \<Rightarrow> TEXT x),
             INTEGER (if False then 1 else 0)] [?root] =
          Inr [?root, [INTEGER 2, TEXT ''f'', INTEGER 1, INTEGER 10, INTEGER 20, INTEGER 1,
                       INTEGER 4124, TEXT ''4096'', INTEGER 0]]"
      by (simp add: upsert_entries_def entries_decrypted_size_not_null_def column_defs
          created_decrypted_size_def created_def)
    then show ?thesis using that by (simp add: insert_entry_decrypted_size_present [OF e'])
  qed
  have d': "distinct (map inode (entries_of (Some created_decrypted_size)))"
    by (simp add: entries_of_def created_decrypted_size_def)
  from insert_entry_read_back [of 2 "''a''" 1 10 20 1 0 True "Some created" f] r d
  have "select_entries_by_inode f 2 =
     [[INTEGER 2, TEXT ''a'', INTEGER 1, INTEGER 10, INTEGER 20, INTEGER 1, INTEGER 0, INTEGER 1]]"
    by simp
  moreover
  from insert_entry_read_back [of 2 "''f''" 1 10 20 1 4124 False
      "Some created_decrypted_size" f' "Some ''4096''"] r' d'
  have "select_entries_by_inode f' 2 =
     [[INTEGER 2, TEXT ''f'', INTEGER 1, INTEGER 10, INTEGER 20, INTEGER 1, INTEGER 4124,
       TEXT ''4096'', INTEGER 0]]"
    by simp
  ultimately show ?thesis using r r' by simp
qed

section \<open>The transaction of a bulk load\<close>

text \<open>Inside a transaction a step changes the uncommitted state only.\<close>

lemma step_in_txn:
  assumes "txn db = Some w"
  shows "disk (snd (sqlite3_step db stmt)) = disk db \<and> txn (snd (sqlite3_step db stmt)) \<noteq> None"
  using assms
  by (auto simp: sqlite3_step_def store_def split: option.splits stmt_sql.splits sum.splits)

lemma insert_entries_tuple_db:
  assumes "insert_entries_tuple db stmt td tuple = Some (rc, db', stmt')"
  shows "db' = db \<or> (\<exists>st. db' = snd (sqlite3_step db st))"
  using assms
  by (auto simp: insert_entries_tuple_def Let_def simp del: bind_chain.simps
      split: option.splits prod.splits if_splits)
    (metis snd_conv)+

lemma insert_entries_tuple_in_txn:
  assumes "txn db = Some w" and "insert_entries_tuple db stmt td tuple = Some (rc, db', stmt')"
  shows "disk db' = disk db \<and> txn db' \<noteq> None"
  using insert_entries_tuple_db [OF assms(2)] step_in_txn [OF assms(1)] assms(1) by auto

lemma insert_entries_loop_in_txn:
  assumes "txn db = Some w" and "insert_entries_loop rc db stmt td tuples = Some (rc', db')"
  shows "disk db' = disk db \<and> txn db' \<noteq> None"
  using assms
proof (induction tuples arbitrary: rc db stmt w)
  case Nil
  then show ?case by auto
next
  case (Cons tuple tuples)
  obtain rc1 db1 stmt1 where t: "insert_entries_tuple db stmt td tuple = Some (rc1, db1, stmt1)"
    using Cons.prems(2) by (auto split: option.splits)
  from insert_entries_tuple_in_txn [OF Cons.prems(1) t]
  have k: "disk db1 = disk db" "txn db1 \<noteq> None" by simp_all
  then obtain w' where w': "txn db1 = Some w'" by auto
  show ?case
  proof (cases "rc1 = 0")
    case True
    then have "insert_entries_loop rc1 db1 stmt1 td tuples = Some (rc', db')"
      using Cons.prems(2) t by simp
    from Cons.IH [OF w' this] k show ?thesis by simp
  next
    case False
    then have "db' = db1" using Cons.prems(2) t by simp
    then show ?thesis using k by simp
  qed
qed

lemma insert_entries_spi_in_txn:
  assumes "txn db = Some w" and "insert_entries_spi db stmt s = Some (rc', db')"
  shows "disk db' = disk db \<and> txn db' \<noteq> None"
proof (cases "insert_entries_spi db stmt s =
    insert_entries_loop (SPI_execute s) db stmt (tupdesc (SPI_tuptable s)) (vals (SPI_tuptable s))")
  case True
  then have "insert_entries_loop (SPI_execute s) db stmt (tupdesc (SPI_tuptable s))
               (vals (SPI_tuptable s)) = Some (rc', db')"
    using assms(2) by simp
  from insert_entries_loop_in_txn [OF assms(1) this] show ?thesis .
next
  case False
  then have "db' = db" using assms(2)
    by (auto simp: insert_entries_spi_def Let_def split: if_splits)
  then show ?thesis using assms(1) by simp
qed

lemma close_transaction_in_txn:
  assumes "txn db = Some w"
  shows "close_transaction rc db = (PG_RETURN_BOOL True, Some (if rc \<noteq> 0 then disk db else w))"
  using assms by (simp add: close_transaction_def sqlite_codes sqlite3_close_def)

text \<open>A loader that gets past its argument checks on a present store and is not killed
  returns true, and leaves the store as it was unless \<open>rc\<close> is 0 when the transaction is
  closed. One that is killed leaves the store as it was.\<close>

lemma insert_entries_present:
  assumes "PG_NARGS fcinfo = 2" and "\<not> PG_ARGISNULL fcinfo 0" and "\<not> PG_ARGISNULL fcinfo 1"
  shows "pg_sqlite_fs_insert_entries fcinfo s (Some d) =
     (case entries d of
        None \<Rightarrow> (PG_RETURN_BOOL True, Some d)
      | Some t \<Rightarrow>
          if SPI_connect s \<noteq> SPI_OK_CONNECT then (PG_RETURN_BOOL True, Some d)
          else case insert_entries_spi \<lparr>disk = d, txn = Some d\<rparr>
                      (Some \<lparr>sql_text = INSERT_INTO_entries, bound = replicate 8 NULL\<rparr>) s of
                 None \<Rightarrow> (SIGSEGV, Some d)
               | Some r \<Rightarrow> (PG_RETURN_BOOL True, Some (if fst r \<noteq> 0 then d else current (snd r))))"
proof -
  let ?db = "\<lparr>disk = d, txn = Some d\<rparr>"
  let ?st = "Some \<lparr>sql_text = INSERT_INTO_entries, bound = replicate 8 NULL\<rparr>"
  have b: "sqlite3_exec \<lparr>disk = d, txn = None\<rparr> BEGIN_TRANSACTION = (SQLITE_OK, ?db)"
    by simp
  have t: "txn ?db = Some d" by simp
  show ?thesis
  proof (cases "entries d")
    case None
    then have "sqlite3_prepare_v2 ?db INSERT_INTO_entries = (SQLITE_ERROR, None)"
      by (simp add: sqlite3_prepare_v2_def current_def)
    then show ?thesis using assms None
      by (simp add: pg_sqlite_fs_insert_entries_def sqlite3_open_def sqlite3_open_v2_def b
          close_transaction_in_txn [OF t] sqlite_codes del: sqlite3_exec.simps)
  next
    case (Some tb)
    then have p: "sqlite3_prepare_v2 ?db INSERT_INTO_entries = (SQLITE_OK, ?st)"
      by (simp add: sqlite3_prepare_v2_def current_def)
    show ?thesis
    proof (cases "insert_entries_spi ?db ?st s")
      case None
      then show ?thesis using assms Some
        by (simp add: pg_sqlite_fs_insert_entries_def sqlite3_open_def sqlite3_open_v2_def b p
            close_transaction_in_txn [OF t] killed_in_transaction_def sqlite_codes
            del: sqlite3_exec.simps)
    next
      case r: (Some res)
      obtain rc db2 where res: "res = (rc, db2)" by (cases res)
      from insert_entries_spi_in_txn [OF t, of ?st s rc db2] r res
      have k: "disk db2 = d" "txn db2 \<noteq> None" by simp_all
      then obtain w where w: "txn db2 = Some w" by auto
      then have c: "current db2 = w" by (simp add: current_def)
      show ?thesis using assms Some
        by (simp add: pg_sqlite_fs_insert_entries_def sqlite3_open_def sqlite3_open_v2_def b p r res
            close_transaction_in_txn [OF t] close_transaction_in_txn [OF w] k c sqlite_codes
            del: sqlite3_exec.simps)
    qed
  qed
qed

text \<open>A tuple with a null in one of the eight columns ends its pass with \<open>rc = 1\<close> or kills
  the process; a tuple whose name is not null does not kill it.\<close>

lemma insert_entries_tuple_null:
  assumes "1 \<le> k" and "k \<le> 8" and "SPI_getbinval tuple td k = None"
  shows "insert_entries_tuple db stmt td tuple = Some (1, db, stmt) \<or>
         insert_entries_tuple db stmt td tuple = None"
proof -
  have "k = 1 \<or> k = 2 \<or> k = 3 \<or> k = 4 \<or> k = 5 \<or> k = 6 \<or> k = 7 \<or> k = 8"
    using assms(1,2) by arith
  then show ?thesis using assms(3)
    by (auto simp: insert_entries_tuple_def simp del: bind_chain.simps split: option.splits)
qed

lemma insert_entries_tuple_name:
  assumes "SPI_getbinval tuple td 2 \<noteq> None"
  shows "insert_entries_tuple db stmt td tuple \<noteq> None"
  using assms
  by (auto simp: insert_entries_tuple_def Let_def simp del: bind_chain.simps
      split: option.splits prod.splits)

lemma insert_entries_tuple_null_name:
  assumes "SPI_getbinval tuple td 1 \<noteq> None" and "SPI_getbinval tuple td 2 = None"
  shows "insert_entries_tuple db stmt td tuple = None"
  using assms by (auto simp: insert_entries_tuple_def)

lemma insert_entries_loop_null:
  assumes "tuple \<in> set tuples" and "1 \<le> k" and "k \<le> 8" and "SPI_getbinval tuple td k = None"
    and "insert_entries_loop rc db stmt td tuples = Some (rc', db')"
  shows "rc' \<noteq> 0"
  using assms(1,5)
proof (induction tuples arbitrary: rc db stmt)
  case Nil
  then show ?case by simp
next
  case (Cons x xs)
  obtain rc1 db1 stmt1 where t: "insert_entries_tuple db stmt td x = Some (rc1, db1, stmt1)"
    using Cons.prems(2) by (auto split: option.splits)
  show ?case
  proof (cases "rc1 = 0")
    case True
    then have "x \<noteq> tuple" using t insert_entries_tuple_null [OF assms(2-4), of db stmt] by auto
    then have "tuple \<in> set xs" using Cons.prems(1) by simp
    moreover have "insert_entries_loop rc1 db1 stmt1 td xs = Some (rc', db')"
      using Cons.prems(2) t True by simp
    ultimately show ?thesis by (rule Cons.IH)
  next
    case False
    then show ?thesis using Cons.prems(2) t by auto
  qed
qed

lemma insert_entries_loop_names:
  assumes "\<forall>t \<in> set tuples. SPI_getbinval t td 2 \<noteq> None"
  shows "insert_entries_loop rc db stmt td tuples \<noteq> None"
  using assms
proof (induction tuples arbitrary: rc db stmt)
  case Nil
  then show ?case by simp
next
  case (Cons x xs)
  have "insert_entries_tuple db stmt td x \<noteq> None"
    using Cons.prems by (intro insert_entries_tuple_name) simp
  then obtain rc1 db1 stmt1 where t: "insert_entries_tuple db stmt td x = Some (rc1, db1, stmt1)"
    by auto
  have "insert_entries_loop rc1 db1 stmt1 td xs \<noteq> None"
    using Cons.prems by (intro Cons.IH) simp
  then show ?case using t by auto
qed

lemma insert_entries_spi_null:
  assumes "tuple \<in> set (vals (SPI_tuptable s))" and "1 \<le> k" and "k \<le> 8"
    and "SPI_getbinval tuple (tupdesc (SPI_tuptable s)) k = None"
    and "insert_entries_spi db stmt s = Some r"
  shows "fst r \<noteq> 0"
proof (cases "insert_entries_spi db stmt s =
    insert_entries_loop (SPI_execute s) db stmt (tupdesc (SPI_tuptable s)) (vals (SPI_tuptable s))")
  case True
  then have "insert_entries_loop (SPI_execute s) db stmt (tupdesc (SPI_tuptable s))
               (vals (SPI_tuptable s)) = Some (fst r, snd r)"
    using assms(5) by simp
  from insert_entries_loop_null [OF assms(1-4) this] show ?thesis .
next
  case False
  then show ?thesis using assms(5)
    by (auto simp: insert_entries_spi_def Let_def split: if_splits)
qed

lemma insert_entries_spi_names:
  assumes "\<forall>t \<in> set (vals (SPI_tuptable s)). SPI_getbinval t (tupdesc (SPI_tuptable s)) 2 \<noteq> None"
  shows "insert_entries_spi db stmt s \<noteq> None"
  using insert_entries_loop_names [OF assms]
  by (simp add: insert_entries_spi_def Let_def)

text \<open>
  C1, on the code. When a tuple of the row-set has a null in one of the eight columns that
  \<open>pg_sqlite_fs_insert_entries\<close> reads, the store afterwards is the store before the call,
  as the claim says. But the call does not return failure. Either it returns true: the
  null was found by a test of \<open>isnull\<close>, \<open>rc\<close> was 1 and the transaction was rolled back,
  and then \<open>rc\<close> was overwritten with the result of the ROLLBACK statement, which
  succeeds. Or it returns nothing, the backend being killed where a null name is
  detoasted. When no name of the row-set is null the call returns true.
\<close>

theorem insert_entries_null_returns_true:
  assumes "PG_NARGS fcinfo = 2" and "\<not> PG_ARGISNULL fcinfo 0" and "\<not> PG_ARGISNULL fcinfo 1"
    and "tuple \<in> set (vals (SPI_tuptable s))" and "1 \<le> k" and "k \<le> 8"
    and "SPI_getbinval tuple (tupdesc (SPI_tuptable s)) k = None"
  shows "(pg_sqlite_fs_insert_entries fcinfo s (Some d) = (PG_RETURN_BOOL True, Some d) \<or>
          pg_sqlite_fs_insert_entries fcinfo s (Some d) = (SIGSEGV, Some d)) \<and>
         ((\<forall>t \<in> set (vals (SPI_tuptable s)). SPI_getbinval t (tupdesc (SPI_tuptable s)) 2 \<noteq> None) \<longrightarrow>
            pg_sqlite_fs_insert_entries fcinfo s (Some d) = (PG_RETURN_BOOL True, Some d))"
proof -
  let ?db = "\<lparr>disk = d, txn = Some d\<rparr>"
  let ?st = "Some \<lparr>sql_text = INSERT_INTO_entries, bound = replicate 8 NULL\<rparr>"
  have r: "insert_entries_spi ?db ?st s = Some r \<Longrightarrow> fst r \<noteq> 0" for r
    by (rule insert_entries_spi_null [OF assms(4-7)])
  have a: "pg_sqlite_fs_insert_entries fcinfo s (Some d) = (PG_RETURN_BOOL True, Some d) \<or>
           pg_sqlite_fs_insert_entries fcinfo s (Some d) = (SIGSEGV, Some d)"
    using r by (auto simp: insert_entries_present [OF assms(1-3)] split: option.splits)
  have b: "pg_sqlite_fs_insert_entries fcinfo s (Some d) = (PG_RETURN_BOOL True, Some d)"
    if "\<forall>t \<in> set (vals (SPI_tuptable s)). SPI_getbinval t (tupdesc (SPI_tuptable s)) 2 \<noteq> None"
    using r insert_entries_spi_names [OF that, of ?db ?st]
    by (auto simp: insert_entries_present [OF assms(1-3)] split: option.splits)
  from a b show ?thesis by blast
qed

text \<open>Three rows for a store just created, the second with a null ctime: the call returns
  true and the first row is not in the store. The same rows with a null name in the second
  instead: the backend is killed.\<close>

theorem insert_entries_null_returns_true_witness:
  "pg_sqlite_fs_insert_entries [path_arg, query_arg]
     (selected \<lparr>tupdesc = columns (entries_columns @ [TEXTOID]),
                vals = [entry_tuple 2 (Some ''a'') 1 None,
                        (entry_tuple 3 (Some ''b'') 1 None)[3 := None],
                        entry_tuple 4 (Some ''c'') 1 None]\<rparr>)
     (Some created) = (PG_RETURN_BOOL True, Some created) \<and>
   pg_sqlite_fs_insert_entries [path_arg, query_arg]
     (selected \<lparr>tupdesc = columns (entries_columns @ [TEXTOID]),
                vals = [entry_tuple 2 (Some ''a'') 1 None, entry_tuple 3 None 1 None,
                        entry_tuple 4 (Some ''c'') 1 None]\<rparr>)
     (Some created) = (SIGSEGV, Some created)"
proof -
  let ?td = "columns (entries_columns @ [TEXTOID])"
  let ?null = "(entry_tuple 3 (Some ''b'') 1 None)[3 := None]"
  let ?s = "selected \<lparr>tupdesc = ?td,
                vals = [entry_tuple 2 (Some ''a'') 1 None, ?null, entry_tuple 4 (Some ''c'') 1 None]\<rparr>"
  have a: "PG_NARGS [path_arg, query_arg] = 2" "\<not> PG_ARGISNULL [path_arg, query_arg] 0"
    "\<not> PG_ARGISNULL [path_arg, query_arg] 1"
    by (simp_all add: arg_defs)
  have m: "?null \<in> set (vals (SPI_tuptable ?s))"
    by (simp add: selected_def)
  have n: "SPI_getbinval ?null (tupdesc (SPI_tuptable ?s)) 4 = None"
    by (simp add: selected_def SPI_getbinval_def columns_def entries_columns_def entry_tuple_def)
  have k: "(1::nat) \<le> 4" "(4::nat) \<le> 8" by simp_all
  have names: "\<forall>t \<in> set (vals (SPI_tuptable ?s)). SPI_getbinval t (tupdesc (SPI_tuptable ?s)) 2 \<noteq> None"
    by (simp add: selected_def SPI_getbinval_def columns_def entries_columns_def entry_tuple_def)
  have "pg_sqlite_fs_insert_entries [path_arg, query_arg] ?s (Some created) =
          (PG_RETURN_BOOL True, Some created)"
    using insert_entries_null_returns_true [OF a m k n, of created] names by blast
  moreover have "pg_sqlite_fs_insert_entries [path_arg, query_arg]
     (selected \<lparr>tupdesc = ?td,
                vals = [entry_tuple 2 (Some ''a'') 1 None, entry_tuple 3 None 1 None,
                        entry_tuple 4 (Some ''c'') 1 None]\<rparr>)
     (Some created) = (SIGSEGV, Some created)"
    by code_simp
  ultimately show ?thesis by simp
qed

section \<open>The ninth column\<close>











section \<open>Loading files\<close>

lemma insert_files_tuple_null_inode:
  assumes "SPI_getbinval tuple td 1 = None"
  shows "insert_files_tuple db stmt td tuple = Some (1, db, stmt)"
  using assms by (simp add: insert_files_tuple_def)

lemma insert_files_tuple_killed:
  assumes "SPI_getbinval tuple td 1 \<noteq> None"
    and "SPI_getbinval tuple td 2 = None \<or> SPI_getbinval tuple td 3 = None \<or>
         SPI_getbinval tuple td 4 = None \<or> SPI_getbinval tuple td 6 = None \<or>
         SPI_getbinval tuple td 7 = None"
  shows "insert_files_tuple db stmt td tuple = None"
  using assms
  by (auto simp: insert_files_tuple_def Let_def simp del: bind_chain.simps split: option.splits)

text \<open>With four columns there is no column 6: \<open>SPI_getbinval\<close> gives NULL for prepend, and
  a tuple whose inode is not null kills the process.\<close>

lemma insert_files_tuple_four:
  assumes "natts td = 4" and "SPI_getbinval tuple td 1 \<noteq> None"
  shows "insert_files_tuple db stmt td tuple = None"
proof -
  have "SPI_getbinval tuple td 6 = None" using assms(1) by (simp add: SPI_getbinval_def)
  then show ?thesis using assms(2) by (intro insert_files_tuple_killed) simp_all
qed

lemma insert_files_loop_four:
  assumes "natts td = 4" and "insert_files_loop rc db stmt td tuples = Some (rc', db')"
  shows "db' = db \<and> (rc' = rc \<and> tuples = [] \<or> rc' = 1)"
proof (cases tuples)
  case Nil
  then show ?thesis using assms(2) by simp
next
  case (Cons x xs)
  show ?thesis
  proof (cases "SPI_getbinval x td 1")
    case None
    then show ?thesis
      using assms(2) Cons insert_files_tuple_null_inode [of x td db stmt] by simp
  next
    case (Some d1)
    then have "insert_files_tuple db stmt td x = None"
      using assms(1) by (intro insert_files_tuple_four) simp_all
    then show ?thesis using assms(2) Cons by simp
  qed
qed

text \<open>Whatever the row-set is, \<open>rc\<close> is not 0 at the label \<open>bailout_spi\<close>, and the handle is
  as it was after BEGIN.\<close>

lemma insert_files_spi_rc:
  assumes "insert_files_spi db stmt s = Some (rc, db')"
  shows "rc \<noteq> 0 \<and> db' = db"
proof (cases "insert_files_spi db stmt s =
    insert_files_loop (SPI_execute s) db stmt (tupdesc (SPI_tuptable s)) (vals (SPI_tuptable s)) \<and>
    natts (tupdesc (SPI_tuptable s)) = 4 \<and> SPI_execute s = SPI_OK_SELECT")
  case True
  then have "insert_files_loop (SPI_execute s) db stmt (tupdesc (SPI_tuptable s))
               (vals (SPI_tuptable s)) = Some (rc, db')"
    using assms by simp
  from insert_files_loop_four [OF _ this] True show ?thesis
    by (auto simp: SPI_OK_SELECT_def)
next
  case False
  then show ?thesis using assms
    by (auto simp: insert_files_spi_def Let_def split: if_splits)
qed

lemma insert_files_present:
  assumes "PG_NARGS fcinfo = 2" and "\<not> PG_ARGISNULL fcinfo 0" and "\<not> PG_ARGISNULL fcinfo 1"
  shows "pg_sqlite_fs_insert_files fcinfo s (Some d) =
     (case files d of
        None \<Rightarrow> (PG_RETURN_BOOL True, Some d)
      | Some t \<Rightarrow>
          if SPI_connect s \<noteq> SPI_OK_CONNECT then (PG_RETURN_BOOL True, Some d)
          else case insert_files_spi \<lparr>disk = d, txn = Some d\<rparr>
                      (Some \<lparr>sql_text = INSERT_INTO_files, bound = replicate 7 NULL\<rparr>) s of
                 None \<Rightarrow> (SIGSEGV, Some d)
               | Some r \<Rightarrow> (PG_RETURN_BOOL True, Some d))"
proof -
  let ?db = "\<lparr>disk = d, txn = Some d\<rparr>"
  let ?st = "Some \<lparr>sql_text = INSERT_INTO_files, bound = replicate 7 NULL\<rparr>"
  have b: "sqlite3_exec \<lparr>disk = d, txn = None\<rparr> BEGIN_TRANSACTION = (SQLITE_OK, ?db)"
    by simp
  have t: "txn ?db = Some d" by simp
  show ?thesis
  proof (cases "files d")
    case None
    then have "sqlite3_prepare_v2 ?db INSERT_INTO_files = (SQLITE_ERROR, None)"
      by (simp add: sqlite3_prepare_v2_def current_def)
    then show ?thesis using assms None
      by (simp add: pg_sqlite_fs_insert_files_def sqlite3_open_def sqlite3_open_v2_def b
          close_transaction_in_txn [OF t] sqlite_codes del: sqlite3_exec.simps)
  next
    case (Some tb)
    then have p: "sqlite3_prepare_v2 ?db INSERT_INTO_files = (SQLITE_OK, ?st)"
      by (simp add: sqlite3_prepare_v2_def current_def)
    show ?thesis
    proof (cases "insert_files_spi ?db ?st s")
      case None
      then show ?thesis using assms Some
        by (simp add: pg_sqlite_fs_insert_files_def sqlite3_open_def sqlite3_open_v2_def b p
            close_transaction_in_txn [OF t] killed_in_transaction_def sqlite_codes
            del: sqlite3_exec.simps)
    next
      case r: (Some res)
      obtain rc db2 where res: "res = (rc, db2)" by (cases res)
      from insert_files_spi_rc [of ?db ?st s rc db2] r res
      have k: "rc \<noteq> 0" "db2 = ?db" by simp_all
      show ?thesis using assms Some
        by (simp add: pg_sqlite_fs_insert_files_def sqlite3_open_def sqlite3_open_v2_def b p r res
            close_transaction_in_txn [OF t] k sqlite_codes del: sqlite3_exec.simps)
    qed
  qed
qed

text \<open>The end of the loop body, for a row-set that had the seven columns: a tuple whose
  inode, mountpoint, rel_path, header, prepend and append are not null is upserted as its
  row, with payload_size 0 when that column is null. No row-set that passes the count
  check has such a tuple.\<close>

lemma bind_chain_7:
  assumes "length (bound st) = 7"
  shows "bind_chain (Some st) [(Suc 0, v1), (2, v2), (3, v3), (4, v4), (5, v5), (6, v6), (7, v7)] =
           (0, Some (st\<lparr>bound := [v1, v2, v3, v4, v5, v6, v7]\<rparr>))"
proof -
  obtain a b c d e f g where "bound st = [a, b, c, d, e, f, g]"
    using assms by (auto simp: length_Suc_conv eval_nat_numeral)
  then show ?thesis by (simp add: sqlite3_bind_def sqlite_codes)
qed

lemma upsert_files_Inr:
  "\<exists>t'. upsert_files (files_row d1 d2 d3 d4 ps d6 d7) t = Inr t'"
  by (simp add: upsert_files_def files_row_def)

lemma step_insert_files:
  assumes "sql_text st = INSERT_INTO_files" and "files (current db) = Some t"
    and "upsert_files (bound st) t = Inr t'"
  shows "sqlite3_step db (Some st) = (SQLITE_DONE, store db ((current db)\<lparr>files := Some t'\<rparr>))"
  using assms by (simp add: sqlite3_step_def)

lemma insert_files_tuple_written:
  assumes "sql_text st = INSERT_INTO_files" and "length (bound st) = 7"
    and "files (current db) = Some t"
    and "SPI_getbinval tuple td 1 = Some d1" and "SPI_getbinval tuple td 2 = Some d2"
    and "SPI_getbinval tuple td 3 = Some d3" and "SPI_getbinval tuple td 4 = Some d4"
    and "SPI_getbinval tuple td 6 = Some d6" and "SPI_getbinval tuple td 7 = Some d7"
    and "upsert_files (files_row d1 d2 d3 d4 (SPI_getbinval tuple td 5) d6 d7) t = Inr t'"
  shows "insert_files_tuple db (Some st) td tuple =
           Some (0, store db ((current db)\<lparr>files := Some t'\<rparr>),
            Some (st\<lparr>bound := files_row d1 d2 d3 d4 (SPI_getbinval tuple td 5) d6 d7\<rparr>))"
proof -
  let ?row = "files_row d1 d2 d3 d4 (SPI_getbinval tuple td 5) d6 d7"
  have r: "[sqlite3_bind_int64 (DatumGetUInt64 d1), sqlite3_bind_text (DatumGetTextPP d2),
            sqlite3_bind_text (DatumGetTextPP d3), sqlite3_bind_blob (DatumGetByteaP d4),
            sqlite3_bind_int64 (case SPI_getbinval tuple td 5 of None \<Rightarrow> 0
                                | Some d5 \<Rightarrow> DatumGetUInt64 d5),
            sqlite3_bind_blob (DatumGetByteaP d6), sqlite3_bind_blob (DatumGetByteaP d7)] = ?row"
    by (simp add: files_row_def sqlite3_bind_int64_def sqlite3_bind_text_def
        sqlite3_bind_blob_def split: option.splits)
  have s: "sqlite3_step db (Some (st\<lparr>bound := ?row\<rparr>)) =
             (SQLITE_DONE, store db ((current db)\<lparr>files := Some t'\<rparr>))"
    using assms(1,3,10) by (intro step_insert_files) simp_all
  show ?thesis
    using assms(4-9)
    by (simp add: insert_files_tuple_def Let_def bind_chain_7 [OF assms(2)] r s
        sqlite_codes sqlite3_reset_def del: bind_chain.simps)
qed

text \<open>
  C2, on the code. A row-set with exactly the seven columns that the loader writes (inode,
  mountpoint, rel_path, header, payload_size, prepend, append) and their types does not
  pass the validation of \<open>pg_sqlite_fs_insert_files\<close>: the count is compared with 4, so the
  checks end with \<open>rc = 3\<close> whatever the rows are. Nothing is written, and the call
  returns true.
\<close>

theorem insert_files_rejects_seven_columns:
  "insert_files_spi db stmt (selected \<lparr>tupdesc = columns files_columns, vals = rows\<rparr>) = Some (3, db) \<and>
   pg_sqlite_fs_insert_files [path_arg, query_arg]
     (selected \<lparr>tupdesc = columns files_columns, vals = rows\<rparr>) (Some d) =
     (PG_RETURN_BOOL True, Some d)"
proof -
  let ?s = "selected \<lparr>tupdesc = columns files_columns, vals = rows\<rparr>"
  have r: "insert_files_spi db' stmt' ?s = Some (3, db')" for db' stmt'
    by (simp add: insert_files_spi_def selected_def columns_def files_columns_def)
  have a: "PG_NARGS [path_arg, query_arg] = 2" "\<not> PG_ARGISNULL [path_arg, query_arg] 0"
    "\<not> PG_ARGISNULL [path_arg, query_arg] 1"
    by (simp_all add: arg_defs)
  show ?thesis
    by (simp add: r insert_files_present [OF a] split: option.splits)
qed



end
